theory Spec2Isabelle
  imports Complex_Main "HOL-Library.Multiset"
begin

text \<open>
  The paginated aggregation of a user's starred repositories and its export: the parsers
  of the Link header (\<open>parseLinkHeader\<close> of the pages, \<open>parseNextFromLink\<close> of the export
  route), the CSV serializers (\<open>toCSV\<close> with \<open>csvEscape\<close> of the export route,
  \<open>toCSVFromRepos\<close> of the dashboard), the normalizer of the page route, and the handler
  \<open>POST\<close> of the export route with its loop over the pages. Each function is a HOL
  function of the same name; an exception is the left summand of a result, and the
  requests sent and the files written are the changes of an explicit world.
\<close>

section \<open>JavaScript values\<close>

text \<open>
  A JavaScript number is a double: not-a-number, one of the two infinities, or a finite
  value, which is a rational. \<open>truthy\<close> is the test of \<open>if (n)\<close> and \<open>!n\<close> on a number
  (zero and NaN are falsy), \<open>isFinite\<close> is \<open>Number.isFinite\<close>.
\<close>

datatype jsnum = JNaN | JPosInf | JNegInf | JFinite rat

fun truthy :: "jsnum \<Rightarrow> bool" where
  "truthy JNaN = False"
| "truthy (JFinite q) = (q \<noteq> 0)"
| "truthy JPosInf = True"
| "truthy JNegInf = True"

fun isFinite :: "jsnum \<Rightarrow> bool" where
  "isFinite (JFinite q) = True"
| "isFinite JNaN = False"
| "isFinite JPosInf = False"
| "isFinite JNegInf = False"

text \<open>
  The values the routes handle: what \<open>JSON.parse\<close> returns, and \<open>undefined\<close> for a
  property that is not there. The association list of \<open>JObj\<close> holds the own properties of
  the object; the first pair with a key is the property.
\<close>

datatype jsval =
    JUndefined
  | JNull
  | JBool bool
  | JNum jsnum
  | JStr string
  | JArr "jsval list"
  | JObj "(string \<times> jsval) list"

text \<open>
  A thrown value, with what the handlers of the routes read from it:
  \<open>error.issues[0].message\<close> of a validation error and \<open>error.message\<close>.
\<close>

datatype exn = ZodError "string list" string | Error string

section \<open>String built-ins\<close>

text \<open>
  \<open>s.split(c)\<close> for a separator of one character: the pieces between the separators,
  one piece (the empty one) for the empty string.
\<close>

fun split_on :: "char \<Rightarrow> string \<Rightarrow> string list" where
  "split_on c [] = [[]]"
| "split_on c (x # xs) =
     (if x = c then [] # split_on c xs
      else (case split_on c xs of [] \<Rightarrow> [[x]] | h # t \<Rightarrow> (x # h) # t))"

text \<open>\<open>pieces.join(sep)\<close>.\<close>

fun join :: "string \<Rightarrow> string list \<Rightarrow> string" where
  "join sep [] = []"
| "join sep [p] = p"
| "join sep (p # q # ps) = p @ sep @ join sep (q # ps)"

text \<open>
  \<open>s.trim()\<close>. A header value holds code units below 256; the white space and line
  terminators among them are tab, line feed, vertical tab, form feed, carriage return,
  space and the no-break space.
\<close>

definition is_space :: "char \<Rightarrow> bool" where
  "is_space c = (c \<in> set [CHR 0x09, CHR 0x0A, CHR 0x0B, CHR 0x0C, CHR 0x0D, CHR 0x20, CHR 0xA0])"

definition trim :: "string \<Rightarrow> string" where
  "trim s = rev (dropWhile is_space (rev (dropWhile is_space s)))"

text \<open>\<open>s.includes(c)\<close> for a string of one character.\<close>

definition str_includes :: "string \<Rightarrow> char \<Rightarrow> bool" where
  "str_includes s c = (c \<in> set s)"

text \<open>\<open>s.replace(/[<>]/g, "")\<close>.\<close>

definition strip_angle :: "string \<Rightarrow> string" where
  "strip_angle s = filter (\<lambda>c. c \<noteq> CHR ''<'' \<and> c \<noteq> CHR ''>'') s"

text \<open>
  \<open>s.match(/rel="(.*)"/)\<close>, giving the first capture group. The dot matches any character
  but a line terminator, and the star is greedy: at the first position where \<open>rel="\<close>
  starts and a double quote follows on the same line, the group runs to the last double
  quote of that line.
\<close>

definition is_line_terminator :: "char \<Rightarrow> bool" where
  "is_line_terminator c = (c = CHR 0x0A \<or> c = CHR 0x0D)"

definition upto_last_quote :: "string \<Rightarrow> string" where
  "upto_last_quote run = rev (tl (dropWhile (\<lambda>c. c \<noteq> CHR 0x22) (rev run)))"

fun rel_match :: "string \<Rightarrow> string option" where
  "rel_match [] = None"
| "rel_match (c # cs) =
     (if take 5 (c # cs) = [CHR ''r'', CHR ''e'', CHR ''l'', CHR ''='', CHR 0x22]
      then (let run = takeWhile (\<lambda>x. \<not> is_line_terminator x) (drop 5 (c # cs))
            in if CHR 0x22 \<in> set run then Some (upto_last_quote run) else rel_match cs)
      else rel_match cs)"

section \<open>The platform\<close>

text \<open>
  What the routes call and do not define: the URL parser, the conversions between
  numbers, strings and JSON text, the constants of the deployment, the remote source
  behind \<open>fetch\<close> and the file system. The functions below take them as a record, and
  the theorems hold for every such record.

  \<^item> \<open>new_URL s\<close> is \<open>new URL(s)\<close>, reduced to the pairs of its \<open>searchParams\<close>; it
    throws on a string that is no absolute URL.
  \<^item> \<open>Number_of s\<close> is \<open>Number(s)\<close> and \<open>String_of v\<close> is \<open>String(v)\<close>, which throws
    on an object that cannot be converted to a primitive.
  \<^item> \<open>JSON_stringify\<close> is \<open>JSON.stringify\<close> with no indentation.
  \<^item> \<open>GITHUB_API_BASE\<close> is the constant of \<open>app/lib/constants\<close> and \<open>GITHUB_TOKEN\<close>
    the environment variable.
  \<^item> \<open>dest_path name\<close> is \<open>path.resolve(process.cwd(), "..", name)\<close>.
  \<^item> \<open>fetch w url headers\<close> sends one request to the remote source in state \<open>w\<close>; it
    gives the response, or throws on a transport failure, and the next state of the
    remote source.
  \<^item> \<open>writeFile_fails file\<close> is the error with which \<open>fs.writeFile\<close> rejects a write
    to \<open>file\<close>, if it does.
  \<^item> \<open>Number_toString n\<close> is the text of a number in a template literal.
  \<^item> \<open>TypeError_of v key\<close> is the error thrown by reading the property \<open>key\<close> of \<open>v\<close>
    when \<open>v\<close> is \<open>null\<close> or \<open>undefined\<close>.
  \<^item> \<open>Response_error status\<close> is the error with which the constructor of a response
    refuses a status that no response with a body can have.
\<close>

record response =
  res_status :: nat
  res_text :: string
  res_json :: "exn + jsval"
  res_link :: "string option"

text \<open>\<open>res.ok\<close>: the status is in the range 200 to 299.\<close>

definition res_ok :: "response \<Rightarrow> bool" where
  "res_ok r = (200 \<le> res_status r \<and> res_status r \<le> 299)"

record 'w platform =
  new_URL :: "string \<Rightarrow> exn + (string \<times> string) list"
  Number_of :: "string \<Rightarrow> jsnum"
  String_of :: "jsval \<Rightarrow> exn + string"
  JSON_stringify :: "jsval \<Rightarrow> string"
  encodeURIComponent :: "string \<Rightarrow> string"
  GITHUB_API_BASE :: string
  GITHUB_TOKEN :: "string option"
  dest_path :: "string \<Rightarrow> string"
  fetch :: "'w \<Rightarrow> string \<Rightarrow> (string \<times> string) list \<Rightarrow> (exn + response) \<times> 'w"
  writeFile_fails :: "string \<Rightarrow> exn option"
  Number_toString :: "jsnum \<Rightarrow> string"
  TypeError_of :: "jsval \<Rightarrow> string \<Rightarrow> exn"
  Response_error :: "nat \<Rightarrow> exn"

section \<open>The Link-header parsers\<close>

text \<open>
  \<open>url.searchParams.get("page")\<close> and \<open>pageStr ? Number(pageStr) : undefined\<close>: the
  first value of the parameter, converted when it is there and not empty.
\<close>

definition page_number :: "'w platform \<Rightarrow> (string \<times> string) list \<Rightarrow> jsnum option" where
  "page_number P url =
     (case map_of url ''page'' of
        None \<Rightarrow> None
      | Some pageStr \<Rightarrow> if pageStr \<noteq> [] then Some (Number_of P pageStr) else None)"

text \<open>
  \<open>info[rel] = pageNum\<close> on an object literal. The key \<open>__proto__\<close> is the accessor
  of \<open>Object.prototype\<close>, whose setter ignores a number; every other key becomes an own
  property.
\<close>

type_synonym PageInfo = "string \<rightharpoonup> jsnum"

definition assign :: "PageInfo \<Rightarrow> string \<Rightarrow> jsnum \<Rightarrow> PageInfo" where
  "assign info rel pageNum = (if rel = ''__proto__'' then info else info(rel \<mapsto> pageNum))"

text \<open>
  \<open>parseLinkHeader\<close> of \<open>app/page.tsx\<close> (the copy in \<open>stars-dashboard/app/page.tsx\<close> is
  the same text). \<open>link_try\<close> is the block under \<open>try\<close>, \<open>link_entry\<close> one round of the
  loop with the \<open>catch\<close> that ignores what the block throws.
\<close>

definition link_try ::
  "'w platform \<Rightarrow> string \<Rightarrow> string option \<Rightarrow> PageInfo \<Rightarrow> exn + PageInfo" where
  "link_try P urlPart relMatch info =
     (case new_URL P urlPart of
        Inl e \<Rightarrow> Inl e
      | Inr url \<Rightarrow>
          (case (relMatch, page_number P url) of
             (Some rel, Some pageNum) \<Rightarrow>
               if truthy pageNum then Inr (assign info rel pageNum) else Inr info
           | _ \<Rightarrow> Inr info))"

definition link_entry :: "'w platform \<Rightarrow> string \<Rightarrow> PageInfo \<Rightarrow> exn + PageInfo" where
  "link_entry P p info =
     (let section = split_on CHR '';'' p in
      if length section < 2 then Inr info
      else
        let urlPart = strip_angle (trim (section ! 0));
            relMatch = rel_match (trim (section ! 1))
        in (case link_try P urlPart relMatch info of
              Inl e \<Rightarrow> Inr info
            | Inr info' \<Rightarrow> Inr info'))"

fun link_entries :: "'w platform \<Rightarrow> string list \<Rightarrow> PageInfo \<Rightarrow> exn + PageInfo" where
  "link_entries P [] info = Inr info"
| "link_entries P (p # parts) info =
     (case link_entry P p info of
        Inl e \<Rightarrow> Inl e
      | Inr info' \<Rightarrow> link_entries P parts info')"

definition parseLinkHeader :: "'w platform \<Rightarrow> string option \<Rightarrow> exn + PageInfo" where
  "parseLinkHeader P link =
     (case link of
        None \<Rightarrow> Inr Map.empty
      | Some l \<Rightarrow>
          if l = [] then Inr Map.empty
          else link_entries P (split_on CHR '','' l) Map.empty)"

text \<open>
  \<open>parseNextFromLink\<close> of the export route: the page of the first entry whose relation
  is \<open>next\<close> and whose page number is truthy and finite.
\<close>

definition next_try :: "'w platform \<Rightarrow> string \<Rightarrow> exn + jsnum option" where
  "next_try P urlPart =
     (case new_URL P urlPart of
        Inl e \<Rightarrow> Inl e
      | Inr url \<Rightarrow>
          (case page_number P url of
             Some pageNum \<Rightarrow>
               if truthy pageNum \<and> isFinite pageNum then Inr (Some pageNum) else Inr None
           | None \<Rightarrow> Inr None))"

fun next_entries :: "'w platform \<Rightarrow> string list \<Rightarrow> exn + jsnum option" where
  "next_entries P [] = Inr None"
| "next_entries P (p # parts) =
     (let section = split_on CHR '';'' p in
      if length section < 2 then next_entries P parts
      else
        let urlPart = strip_angle (trim (section ! 0));
            relMatch = rel_match (trim (section ! 1))
        in (case relMatch of
              None \<Rightarrow> next_entries P parts
            | Some rel \<Rightarrow>
                if rel \<noteq> ''next'' then next_entries P parts
                else (case next_try P urlPart of
                        Inl e \<Rightarrow> next_entries P parts
                      | Inr (Some pageNum) \<Rightarrow> Inr (Some pageNum)
                      | Inr None \<Rightarrow> next_entries P parts)))"

definition parseNextFromLink :: "'w platform \<Rightarrow> string option \<Rightarrow> exn + jsnum option" where
  "parseNextFromLink P link =
     (case link of
        None \<Rightarrow> Inr None
      | Some l \<Rightarrow> if l = [] then Inr None else next_entries P (split_on CHR '','' l))"

section \<open>Property access\<close>

definition nullish :: "jsval \<Rightarrow> bool" where
  "nullish v = (v = JNull \<or> v = JUndefined)"

text \<open>
  \<open>r.key\<close> on a value that is neither \<open>null\<close> nor \<open>undefined\<close>, for the keys the routes
  read (none of them is a property of a built-in prototype): the own property of an
  object, \<open>undefined\<close> otherwise.
\<close>

definition get_prop :: "jsval \<Rightarrow> string \<Rightarrow> jsval" where
  "get_prop r key =
     (case r of
        JObj kvs \<Rightarrow> (case map_of kvs key of Some v \<Rightarrow> v | None \<Rightarrow> JUndefined)
      | _ \<Rightarrow> JUndefined)"

text \<open>\<open>r?.key\<close> and \<open>a ?? b\<close>.\<close>

definition opt_prop :: "jsval \<Rightarrow> string \<Rightarrow> jsval" where
  "opt_prop r key = (if nullish r then JUndefined else get_prop r key)"

definition coalesce :: "jsval \<Rightarrow> jsval \<Rightarrow> jsval" where
  "coalesce a b = (if nullish a then b else a)"

text \<open>The first exception of a row of computations, or all their results.\<close>

fun in_order :: "(exn + 'a) list \<Rightarrow> exn + 'a list" where
  "in_order [] = Inr []"
| "in_order (Inl e # cs) = Inl e"
| "in_order (Inr x # cs) = (case in_order cs of Inl e \<Rightarrow> Inl e | Inr xs \<Rightarrow> Inr (x # xs))"

section \<open>The CSV serializers\<close>

text \<open>
  \<open>s.replace(/\r?\n|\r/g, " ")\<close> and \<open>s.replace(/"/g, '""')\<close>. The serializers look
  at four characters only, the comma, the double quote, the line feed and the carriage
  return, so the encoding of all others in a \<open>string\<close> does not matter.
\<close>

fun collapse_newlines :: "string \<Rightarrow> string" where
  "collapse_newlines [] = []"
| "collapse_newlines [c] = (if c = CHR 0x0A \<or> c = CHR 0x0D then [CHR 0x20] else [c])"
| "collapse_newlines (c # d # s) =
     (if c = CHR 0x0D \<and> d = CHR 0x0A then CHR 0x20 # collapse_newlines s
      else if c = CHR 0x0A \<or> c = CHR 0x0D then CHR 0x20 # collapse_newlines (d # s)
      else c # collapse_newlines (d # s))"

definition double_quotes :: "string \<Rightarrow> string" where
  "double_quotes s = concat (map (\<lambda>c. if c = CHR 0x22 then [CHR 0x22, CHR 0x22] else [c]) s)"

text \<open>\<open>csvEscape\<close> of the export route.\<close>

definition csvEscape :: "'w platform \<Rightarrow> jsval \<Rightarrow> exn + string" where
  "csvEscape P val =
     (if val = JNull \<or> val = JUndefined then Inr []
      else (case String_of P val of
              Inl e \<Rightarrow> Inl e
            | Inr s0 \<Rightarrow>
                let s = collapse_newlines s0 in
                if str_includes s (CHR 0x22) \<or> str_includes s CHR '','' \<or> str_includes s (CHR 0x0A)
                then Inr ([CHR 0x22] @ double_quotes s @ [CHR 0x22])
                else Inr s))"

text \<open>\<open>toCSV\<close> of the export route, on the records as the remote source sent them.\<close>

definition csv_headers :: "string list" where
  "csv_headers =
     [''id'', ''full_name'', ''html_url'', ''description'', ''stargazers_count'', ''language'',
      ''owner_login'', ''owner_html_url'']"

definition csv_row :: "'w platform \<Rightarrow> jsval \<Rightarrow> exn + string" where
  "csv_row P r =
     (case in_order
        [csvEscape P (opt_prop r ''id''),
         csvEscape P (coalesce (opt_prop r ''full_name'') (coalesce (opt_prop r ''name'') (JStr []))),
         csvEscape P (coalesce (opt_prop r ''html_url'') (JStr [])),
         csvEscape P (coalesce (opt_prop r ''description'') (JStr [])),
         csvEscape P (coalesce (opt_prop r ''stargazers_count'') (JStr [])),
         csvEscape P (coalesce (opt_prop r ''language'') (JStr [])),
         csvEscape P (coalesce (opt_prop (opt_prop r ''owner'') ''login'') (JStr [])),
         csvEscape P (coalesce (opt_prop (opt_prop r ''owner'') ''html_url'') (JStr []))]
      of Inl e \<Rightarrow> Inl e
       | Inr row \<Rightarrow> Inr (join '','' row))"

definition toCSV :: "'w platform \<Rightarrow> jsval list \<Rightarrow> exn + string" where
  "toCSV P all =
     (case in_order (map (csv_row P) all) of
        Inl e \<Rightarrow> Inl e
      | Inr rows \<Rightarrow> Inr (join [CHR 0x0A] (join '','' csv_headers # rows) @ [CHR 0x0A]))"

text \<open>
  \<open>toCSVFromRepos\<close> of the dashboard page, on normalized items, with its local \<open>esc\<close>.
  Here \<open>r.id\<close> and \<open>r.owner.login\<close> have no \<open>?.\<close>, so they throw on \<open>null\<close> and
  \<open>undefined\<close>.
\<close>

definition esc :: "'w platform \<Rightarrow> jsval \<Rightarrow> exn + string" where
  "esc P val =
     (if val = JNull \<or> val = JUndefined then Inr []
      else (case String_of P val of
              Inl e \<Rightarrow> Inl e
            | Inr s0 \<Rightarrow>
                let s = collapse_newlines s0 in
                if str_includes s (CHR 0x22) \<or> str_includes s CHR '','' \<or> str_includes s (CHR 0x0A)
                then Inr ([CHR 0x22] @ double_quotes s @ [CHR 0x22])
                else Inr s))"

definition strict_prop :: "'w platform \<Rightarrow> jsval \<Rightarrow> string \<Rightarrow> exn + jsval" where
  "strict_prop P r key = (if nullish r then Inl (TypeError_of P r key) else Inr (get_prop r key))"

definition then_esc :: "'w platform \<Rightarrow> exn + jsval \<Rightarrow> exn + string" where
  "then_esc P c = (case c of Inl e \<Rightarrow> Inl e | Inr v \<Rightarrow> esc P v)"

definition repos_headers :: "string list" where
  "repos_headers =
     [''id'', ''full_name'', ''url'', ''description'', ''stars'', ''language'', ''owner_login'',
      ''owner_url'']"

definition repos_row :: "'w platform \<Rightarrow> jsval \<Rightarrow> exn + string" where
  "repos_row P r =
     (case in_order
        [then_esc P (strict_prop P r ''id''),
         then_esc P (strict_prop P r ''fullName''),
         then_esc P (strict_prop P r ''url''),
         then_esc P (case strict_prop P r ''description'' of
                       Inl e \<Rightarrow> Inl e | Inr v \<Rightarrow> Inr (coalesce v (JStr []))),
         then_esc P (strict_prop P r ''stars''),
         then_esc P (case strict_prop P r ''language'' of
                       Inl e \<Rightarrow> Inl e | Inr v \<Rightarrow> Inr (coalesce v (JStr []))),
         then_esc P (case strict_prop P r ''owner'' of
                       Inl e \<Rightarrow> Inl e | Inr owner \<Rightarrow> strict_prop P owner ''login''),
         then_esc P (case strict_prop P r ''owner'' of
                       Inl e \<Rightarrow> Inl e | Inr owner \<Rightarrow> strict_prop P owner ''url'')]
      of Inl e \<Rightarrow> Inl e
       | Inr row \<Rightarrow> Inr (join '','' row))"

definition toCSVFromRepos :: "'w platform \<Rightarrow> jsval list \<Rightarrow> exn + string" where
  "toCSVFromRepos P repos =
     (case in_order (map (repos_row P) repos) of
        Inl e \<Rightarrow> Inl e
      | Inr rows \<Rightarrow> Inr (join [CHR 0x0A] (join '','' repos_headers # rows) @ [CHR 0x0A]))"

section \<open>The normalizer of the page route\<close>

text \<open>
  The function mapped over the records in \<open>GET\<close>. The first read of a property of a
  \<open>null\<close> record throws, and so does \<open>r.owner.login\<close> when the record has no owner.
\<close>

definition normalize :: "'w platform \<Rightarrow> jsval \<Rightarrow> exn + jsval" where
  "normalize P r =
     (if nullish r then Inl (TypeError_of P r ''id'')
      else
        let owner = get_prop r ''owner'' in
        if nullish owner then Inl (TypeError_of P owner ''login'')
        else Inr (JObj
          [(''id'', get_prop r ''id''),
           (''name'', get_prop r ''name''),
           (''fullName'', get_prop r ''full_name''),
           (''url'', get_prop r ''html_url''),
           (''description'', get_prop r ''description''),
           (''stars'', get_prop r ''stargazers_count''),
           (''language'', get_prop r ''language''),
           (''owner'', JObj
              [(''login'', get_prop owner ''login''),
               (''avatarUrl'', get_prop owner ''avatar_url''),
               (''url'', get_prop owner ''html_url'')])]))"

text \<open>
  What a reader of the response sees of an object: \<open>JSON.stringify\<close> leaves out the
  properties whose value is \<open>undefined\<close>, at every depth.
\<close>

fun defined_props :: "jsval \<Rightarrow> jsval" where
  "defined_props (JObj kvs) =
     JObj (map (\<lambda>(k, v). (k, defined_props v)) (filter (\<lambda>(k, v). v \<noteq> JUndefined) kvs))"
| "defined_props v = v"

section \<open>The export route\<close>

text \<open>
  The world the route acts on: the state of the remote source, the files on disk, and the
  URLs of the requests sent so far.
\<close>

record 'w world =
  remote :: 'w
  files :: "string \<rightharpoonup> string"
  fetched :: "string list"

text \<open>
  What \<open>NextResponse.json(body, { status })\<close> sends back; the status is 200 by default.
  The constructor of the response throws a RangeError for a status outside 200 to 599 and
  a TypeError for one of the statuses of a response without a body, 204, 205 and 304 in
  that range. The statuses 200 and 400, which the route writes itself, are accepted.
\<close>

record http_response =
  http_status :: nat
  http_body :: jsval

definition body_status :: "nat \<Rightarrow> bool" where
  "body_status st = (200 \<le> st \<and> st \<le> 599 \<and> st \<noteq> 204 \<and> st \<noteq> 205 \<and> st \<noteq> 304)"

definition NextResponse_json :: "'w platform \<Rightarrow> jsval \<Rightarrow> nat \<Rightarrow> exn + http_response" where
  "NextResponse_json P body st =
     (if body_status st then Inr \<lparr>http_status = st, http_body = body\<rparr>
      else Inl (Response_error P st))"

datatype format = Json | Csv

definition format_name :: "format \<Rightarrow> string" where
  "format_name f = (case f of Json \<Rightarrow> ''json'' | Csv \<Rightarrow> ''csv'')"

text \<open>
  The handler of the outer \<open>catch\<close>:
  \<open>error?.issues?.[0]?.message || error?.message || "Unknown error"\<close>, sent with status 400.
\<close>

definition catch_message :: "exn \<Rightarrow> string" where
  "catch_message e =
     (case e of
        ZodError issues msg \<Rightarrow>
          (case issues of
             m # _ \<Rightarrow> if m \<noteq> [] then m else if msg \<noteq> [] then msg else ''Unknown error''
           | [] \<Rightarrow> if msg \<noteq> [] then msg else ''Unknown error'')
      | Error msg \<Rightarrow> if msg \<noteq> [] then msg else ''Unknown error'')"

definition catch_response :: "exn \<Rightarrow> http_response" where
  "catch_response e =
     \<lparr>http_status = 400, http_body = JObj [(''error'', JStr (catch_message e))]\<rparr>"

text \<open>The request of one page: the headers, with the credential when one is set, and the URL.\<close>

definition request_headers :: "'w platform \<Rightarrow> (string \<times> string) list" where
  "request_headers P =
     [(''Accept'', ''application/vnd.github+json''), (''X-GitHub-Api-Version'', ''2022-11-28'')]
     @ (case GITHUB_TOKEN P of
          None \<Rightarrow> []
        | Some token \<Rightarrow> if token \<noteq> [] then [(''Authorization'', ''Bearer '' @ token)] else [])"

definition page_url :: "'w platform \<Rightarrow> string \<Rightarrow> jsnum \<Rightarrow> string" where
  "page_url P username page =
     GITHUB_API_BASE P @ ''/users/'' @ encodeURIComponent P username @ ''/starred?page=''
     @ Number_toString P page @ ''&per_page='' @ Number_toString P (JFinite 100)"

text \<open>
  One round of the loop of \<open>POST\<close>: it goes on with the next page, or leaves the loop by
  the \<open>return\<close> under \<open>!res.ok\<close>, by an exception, or by \<open>break\<close>. Under \<open>!res.ok\<close> the
  response is built with the status of the page, and the constructor may refuse it.
\<close>

datatype 'w loop_exit =
    Returned http_response "'w world"
  | Thrown exn "'w world"
  | Done "jsval list" "'w world"

datatype 'w step = Continue jsnum "jsval list" "'w world" | Exit "'w loop_exit"

definition push_chunk :: "jsval list \<Rightarrow> jsval \<Rightarrow> jsval list" where
  "push_chunk all chunk =
     (case chunk of
        JArr items \<Rightarrow> if length items > 0 then all @ items else all
      | _ \<Rightarrow> all)"

definition iteration ::
  "'w platform \<Rightarrow> string \<Rightarrow> jsnum \<Rightarrow> jsval list \<Rightarrow> 'w world \<Rightarrow> 'w step" where
  "iteration P username page all W =
     (let url = page_url P username page;
          sent = fetch P (remote W) url (request_headers P);
          W' = W\<lparr>remote := snd sent, fetched := fetched W @ [url]\<rparr>
      in case fst sent of
           Inl e \<Rightarrow> Exit (Thrown e W')
         | Inr res \<Rightarrow>
             if \<not> res_ok res then
               (case NextResponse_json P
                       (JObj [(''error'', JStr (''GitHub API error (''
                          @ Number_toString P (JFinite (of_nat (res_status res))) @ ''): ''
                          @ res_text res))])
                       (res_status res) of
                  Inl e \<Rightarrow> Exit (Thrown e W')
                | Inr resp \<Rightarrow> Exit (Returned resp W'))
             else
               (case res_json res of
                  Inl e \<Rightarrow> Exit (Thrown e W')
                | Inr chunk \<Rightarrow>
                    (case parseNextFromLink P (res_link res) of
                       Inl e \<Rightarrow> Exit (Thrown e W')
                     | Inr None \<Rightarrow> Exit (Done (push_chunk all chunk) W')
                     | Inr (Some nextPage) \<Rightarrow>
                         if truthy nextPage then Continue nextPage (push_chunk all chunk) W'
                         else Exit (Done (push_chunk all chunk) W'))))"

text \<open>The loop \<open>for (let i = 0; i < 100; i++)\<close>, from the value of \<open>i\<close> on.\<close>

function aggregate ::
  "'w platform \<Rightarrow> string \<Rightarrow> nat \<Rightarrow> jsnum \<Rightarrow> jsval list \<Rightarrow> 'w world \<Rightarrow> 'w loop_exit" where
  "aggregate P username i page all W =
     (if i < 100 then
        (case iteration P username page all W of
           Continue nextPage all' W' \<Rightarrow> aggregate P username (i + 1) nextPage all' W'
         | Exit x \<Rightarrow> x)
      else Done all W)"
  by pat_completeness auto
termination
  by (relation "measure (\<lambda>(P, username, i, page, all, W). 100 - i)") auto

text \<open>
  \<open>POST\<close>. Its first argument is what \<open>exportRequestSchema.parse(await req.json())\<close>
  gives: the exception it throws, or the user name and the format. Every exception
  thrown under the outer \<open>try\<close> ends in its \<open>catch\<close>.
\<close>

definition artifact :: "'w platform \<Rightarrow> format \<Rightarrow> jsval list \<Rightarrow> exn + string \<times> string" where
  "artifact P fmt all =
     (case fmt of
        Csv \<Rightarrow> (case toCSV P all of
                  Inl e \<Rightarrow> Inl e
                | Inr csv \<Rightarrow> Inr (dest_path P ''stars.csv'', csv))
      | Json \<Rightarrow> Inr (dest_path P ''stars.json'', JSON_stringify P (JArr all)))"

text \<open>Lines 148 to 158: the artifact is written and the success reported.\<close>

definition persist ::
  "'w platform \<Rightarrow> format \<Rightarrow> jsval list \<Rightarrow> 'w world \<Rightarrow> http_response \<times> 'w world" where
  "persist P fmt all W =
     (case artifact P fmt all of
        Inl e \<Rightarrow> (catch_response e, W)
      | Inr (destPath, content) \<Rightarrow>
          (case writeFile_fails P destPath of
             Some e \<Rightarrow> (catch_response e, W)
           | None \<Rightarrow>
               (\<lparr>http_status = 200,
                 http_body = JObj
                   [(''ok'', JBool True),
                    (''count'', JNum (JFinite (of_nat (length all)))),
                    (''path'', JStr destPath),
                    (''format'', JStr (format_name fmt))]\<rparr>,
                W\<lparr>files := (files W)(destPath \<mapsto> content)\<rparr>)))"

definition POST ::
  "'w platform \<Rightarrow> exn + string \<times> format \<Rightarrow> 'w world \<Rightarrow> http_response \<times> 'w world" where
  "POST P parsed W =
     (case parsed of
        Inl e \<Rightarrow> (catch_response e, W)
      | Inr (username, fmt) \<Rightarrow>
          (case aggregate P username 0 (JFinite 1) [] W of
             Returned resp W' \<Rightarrow> (resp, W')
           | Thrown e W' \<Rightarrow> (catch_response e, W')
           | Done all W' \<Rightarrow> persist P fmt all W'))"

section \<open>An example platform\<close>

text \<open>
  The closed examples below need a platform to run on. This one follows the JavaScript
  built-ins on a fragment of their inputs, enough for the inputs of the examples: URLs
  with the scheme \<open>http\<close> or \<open>https\<close>, a host and a query without escapes; numbers
  written as signed decimal integers or \<open>Infinity\<close>; texts of strings, booleans,
  integers, arrays and plain objects; JSON texts of values whose strings hold no control
  characters; the base URL \<open>https://api.github.com\<close>, no credential, and a disk on which
  every write succeeds. The texts of the errors are those of Node. It is used in no
  theorem about all inputs.
\<close>

definition digit_char :: "nat \<Rightarrow> char" where
  "digit_char d = char_of (48 + d)"

function show_nat :: "nat \<Rightarrow> string" where
  "show_nat n = (if n < 10 then [digit_char n] else show_nat (n div 10) @ [digit_char (n mod 10)])"
  by pat_completeness auto
termination
  by (relation "measure id") auto

definition is_digit :: "char \<Rightarrow> bool" where
  "is_digit c = (48 \<le> (of_char c :: nat) \<and> (of_char c :: nat) \<le> 57)"

definition digits_value :: "string \<Rightarrow> nat" where
  "digits_value s = foldl (\<lambda>acc c. 10 * acc + (of_char c - 48)) 0 s"

definition unsigned_number :: "string \<Rightarrow> jsnum" where
  "unsigned_number s =
     (if s = ''Infinity'' then JPosInf
      else if s \<noteq> [] \<and> list_all is_digit s then JFinite (of_nat (digits_value s))
      else JNaN)"

definition negate :: "jsnum \<Rightarrow> jsnum" where
  "negate n =
     (case n of
        JFinite q \<Rightarrow> JFinite (- q)
      | JPosInf \<Rightarrow> JNegInf
      | JNegInf \<Rightarrow> JPosInf
      | JNaN \<Rightarrow> JNaN)"

definition example_Number :: "string \<Rightarrow> jsnum" where
  "example_Number s0 =
     (let s = trim s0 in
      if s = [] then JFinite 0
      else if hd s = CHR ''-'' then negate (unsigned_number (tl s))
      else if hd s = CHR ''+'' then unsigned_number (tl s)
      else unsigned_number s)"

definition example_toString :: "jsnum \<Rightarrow> string" where
  "example_toString n =
     (case n of
        JNaN \<Rightarrow> ''NaN''
      | JPosInf \<Rightarrow> ''Infinity''
      | JNegInf \<Rightarrow> ''-Infinity''
      | JFinite q \<Rightarrow>
          if 0 \<le> q then show_nat (nat \<lfloor>q\<rfloor>) else CHR ''-'' # show_nat (nat \<lfloor>- q\<rfloor>))"

fun example_String :: "jsval \<Rightarrow> exn + string" where
  "example_String (JStr s) = Inr s"
| "example_String (JNum n) = Inr (example_toString n)"
| "example_String (JBool b) = Inr (if b then ''true'' else ''false'')"
| "example_String JNull = Inr ''null''"
| "example_String JUndefined = Inr ''undefined''"
| "example_String (JObj kvs) = Inr ''[object Object]''"
| "example_String (JArr xs) =
     (case in_order (map (\<lambda>x. if x = JNull \<or> x = JUndefined then Inr [] else example_String x) xs)
      of Inl e \<Rightarrow> Inl e
       | Inr parts \<Rightarrow> Inr (join '','' parts))"

definition split_first :: "char \<Rightarrow> string \<Rightarrow> string \<times> string" where
  "split_first c s = (takeWhile (\<lambda>x. x \<noteq> c) s, drop 1 (dropWhile (\<lambda>x. x \<noteq> c) s))"

definition example_new_URL :: "string \<Rightarrow> exn + (string \<times> string) list" where
  "example_new_URL s =
     (let rest = (if take 8 s = ''https://'' then drop 8 s
                  else if take 7 s = ''http://'' then drop 7 s else [])
      in if rest = [] \<or> hd rest \<in> set ''/?#'' then Inl (Error ''Invalid URL'')
         else
           let query = takeWhile (\<lambda>x. x \<noteq> CHR ''#'') (snd (split_first CHR ''?'' rest))
           in Inr (map (split_first CHR ''='') (filter (\<lambda>p. p \<noteq> []) (split_on CHR ''&'' query))))"

definition is_unreserved :: "char \<Rightarrow> bool" where
  "is_unreserved c =
     (c \<in> set ''ABCDEFGHIJKLMNOPQRSTUVWXYZabcdefghijklmnopqrstuvwxyz0123456789-_.!~*()''
      \<or> c = CHR 0x27)"

definition hex_digit :: "nat \<Rightarrow> char" where
  "hex_digit d = (if d < 10 then char_of (48 + d) else char_of (55 + d))"

definition example_encodeURIComponent :: "string \<Rightarrow> string" where
  "example_encodeURIComponent s =
     concat (map (\<lambda>c. if is_unreserved c then [c]
                       else [CHR ''%'', hex_digit (of_char c div 16), hex_digit (of_char c mod 16)]) s)"

definition json_quote :: "string \<Rightarrow> string" where
  "json_quote s =
     [CHR 0x22]
     @ concat (map (\<lambda>c. if c = CHR 0x22 \<or> c = CHR 0x5C then [CHR 0x5C, c] else [c]) s)
     @ [CHR 0x22]"

fun example_stringify :: "jsval \<Rightarrow> string" where
  "example_stringify (JArr xs) = ''['' @ join '','' (map example_stringify xs) @ '']''"
| "example_stringify (JObj kvs) =
     ''{'' @ join '','' (map (\<lambda>kv. json_quote (fst kv) @ '':'' @ example_stringify (snd kv))
                          (filter (\<lambda>kv. snd kv \<noteq> JUndefined) kvs)) @ ''}''"
| "example_stringify (JStr s) = json_quote s"
| "example_stringify (JNum n) = (if isFinite n then example_toString n else ''null'')"
| "example_stringify (JBool b) = (if b then ''true'' else ''false'')"
| "example_stringify JNull = ''null''"
| "example_stringify JUndefined = ''null''"

definition example_TypeError :: "jsval \<Rightarrow> string \<Rightarrow> exn" where
  "example_TypeError v key =
     Error (''Cannot read properties of '' @ (if v = JNull then ''null'' else ''undefined'')
            @ '' (reading '' @ [CHR 0x27] @ key @ [CHR 0x27] @ '')'')"

definition example_Response_error :: "nat \<Rightarrow> exn" where
  \<open>example_Response_error st =
     (if st < 200 \<or> 599 < st
      then Error ''init["status"] must be in the range of 200 to 599, inclusive.''
      else Error (''Response constructor: Invalid response status code '' @ show_nat st))\<close>

definition example_platform ::
  "('w \<Rightarrow> string \<Rightarrow> (string \<times> string) list \<Rightarrow> (exn + response) \<times> 'w) \<Rightarrow> 'w platform" where
  "example_platform f =
     \<lparr>new_URL = example_new_URL,
      Number_of = example_Number,
      String_of = example_String,
      JSON_stringify = example_stringify,
      encodeURIComponent = example_encodeURIComponent,
      GITHUB_API_BASE = ''https://api.github.com'',
      GITHUB_TOKEN = None,
      dest_path = (\<lambda>name. ''/srv/'' @ name),
      fetch = f,
      writeFile_fails = (\<lambda>file. None),
      Number_toString = example_toString,
      TypeError_of = example_TypeError,
      Response_error = example_Response_error\<rparr>"

text \<open>A platform with no remote source, for the functions that send no request.\<close>

definition offline :: "unit platform" where
  "offline = example_platform (\<lambda>w url headers. (Inl (Error ''fetch failed''), w))"

section \<open>Runs of the parsers and of the loop\<close>

text \<open>What one entry of a header records: its relation name and its page number, if any.\<close>

definition recorded_pair :: "'w platform \<Rightarrow> string \<Rightarrow> (string \<times> jsnum) option" where
  "recorded_pair P p =
     (let section = split_on CHR '';'' p in
      if length section < 2 then None
      else (case new_URL P (strip_angle (trim (section ! 0))) of
              Inl e \<Rightarrow> None
            | Inr url \<Rightarrow>
                (case (rel_match (trim (section ! 1)), page_number P url) of
                   (Some rel, Some pageNum) \<Rightarrow> if truthy pageNum then Some (rel, pageNum) else None
                 | _ \<Rightarrow> None)))"

text \<open>One round of the loop of \<open>parseLinkHeader\<close>, seen from its result.\<close>

definition record_entry :: "'w platform \<Rightarrow> string \<Rightarrow> PageInfo \<Rightarrow> PageInfo" where
  "record_entry P p info =
     (case recorded_pair P p of None \<Rightarrow> info | Some (rel, pageNum) \<Rightarrow> assign info rel pageNum)"

text \<open>
  \<open>entry_records P p rel n\<close>: the entry \<open>p\<close> has at least two segments, its second segment
  matches \<open>rel="..."\<close> with the name \<open>rel\<close>, its first segment is a URL, and the \<open>page\<close>
  parameter of that URL is there, is not empty and converts to \<open>n\<close>, which is neither zero
  nor NaN.
\<close>

definition entry_records :: "'w platform \<Rightarrow> string \<Rightarrow> string \<Rightarrow> jsnum \<Rightarrow> bool" where
  "entry_records P p rel n =
     (2 \<le> length (split_on CHR '';'' p)
      \<and> rel_match (trim (split_on CHR '';'' p ! 1)) = Some rel
      \<and> (case new_URL P (strip_angle (trim (split_on CHR '';'' p ! 0))) of
            Inl e \<Rightarrow> False
          | Inr url \<Rightarrow> page_number P url = Some n)
      \<and> truthy n)"

text \<open>No relation name is recorded by two entries of the header with different pages.\<close>

definition one_page_per_relation :: "'w platform \<Rightarrow> string \<Rightarrow> bool" where
  "one_page_per_relation P l =
     (\<forall>p \<in> set (split_on CHR '','' l). \<forall>q \<in> set (split_on CHR '','' l).
        (case (recorded_pair P p, recorded_pair P q) of
           (Some (rel, n), Some (rel', m)) \<Rightarrow> rel = rel' \<longrightarrow> n = m
         | _ \<Rightarrow> True))"

text \<open>The page \<open>parseNextFromLink\<close> takes from one entry, if any.\<close>

definition next_candidate :: "'w platform \<Rightarrow> string \<Rightarrow> jsnum option" where
  "next_candidate P p =
     (case recorded_pair P p of
        Some (rel, n) \<Rightarrow> if rel = ''next'' \<and> isFinite n then Some n else None
      | None \<Rightarrow> None)"

text \<open>
  The state of the loop after \<open>n\<close> rounds that all went on to a next page; \<open>None\<close> when
  one of them left the loop.
\<close>

fun iterations ::
  "'w platform \<Rightarrow> string \<Rightarrow> nat \<Rightarrow> jsnum \<Rightarrow> jsval list \<Rightarrow> 'w world \<Rightarrow>
   (jsnum \<times> jsval list \<times> 'w world) option" where
  "iterations P username 0 page all W = Some (page, all, W)"
| "iterations P username (Suc n) page all W =
     (case iteration P username page all W of
        Continue nextPage all' W' \<Rightarrow> iterations P username n nextPage all' W'
      | Exit x \<Rightarrow> None)"

text \<open>The world in which the loop was left.\<close>

definition exit_world :: "'w loop_exit \<Rightarrow> 'w world" where
  "exit_world x = (case x of Returned resp W \<Rightarrow> W | Thrown e W \<Rightarrow> W | Done all W \<Rightarrow> W)"

text \<open>
  The chain of \<open>next\<close> pointers never runs out: however many rounds, each request is
  answered with a success whose header names a next page.
\<close>

definition endless_chain :: "'w platform \<Rightarrow> string \<Rightarrow> 'w world \<Rightarrow> bool" where
  "endless_chain P username W = (\<forall>n. iterations P username n (JFinite 1) [] W \<noteq> None)"

text \<open>The world after one request for \<open>page\<close> has been sent and answered.\<close>

definition sent_world :: "'w platform \<Rightarrow> string \<Rightarrow> jsnum \<Rightarrow> 'w world \<Rightarrow> 'w world" where
  "sent_world P username page W =
     W\<lparr>remote := snd (fetch P (remote W) (page_url P username page) (request_headers P)),
       fetched := fetched W @ [page_url P username page]\<rparr>"

text \<open>The items of a page: the elements of its body when the body is an array.\<close>

definition page_items :: "response \<Rightarrow> jsval list" where
  "page_items r = (case res_json r of Inr (JArr items) \<Rightarrow> items | _ \<Rightarrow> [])"

text \<open>A body that is not an array, or is the empty array.\<close>

definition no_items :: "jsval \<Rightarrow> bool" where
  "no_items chunk = (case chunk of JArr items \<Rightarrow> items = [] | _ \<Rightarrow> True)"

text \<open>The \<open>next\<close> pointer the loop reads from a response.\<close>

definition next_pointer :: "'w platform \<Rightarrow> response \<Rightarrow> jsnum option" where
  "next_pointer P r =
     (case parseNextFromLink P (res_link r) of
        Inr (Some nextPage) \<Rightarrow> if truthy nextPage then Some nextPage else None
      | _ \<Rightarrow> None)"

text \<open>
  \<open>serves P username page w rs\<close>: asked for the pages from \<open>page\<close> on, following the
  \<open>next\<close> pointers, the remote source in state \<open>w\<close> answers with the responses \<open>rs\<close>, one
  after the other; each has a success status and a body that is JSON, each but the last
  has a \<open>next\<close> pointer, and the last has none.
\<close>

fun serves :: "'w platform \<Rightarrow> string \<Rightarrow> jsnum \<Rightarrow> 'w \<Rightarrow> response list \<Rightarrow> bool" where
  "serves P username page w [] = False"
| "serves P username page w (r # rs) =
     (let sent = fetch P w (page_url P username page) (request_headers P) in
      fst sent = Inr r \<and> res_ok r \<and> \<not> isl (res_json r)
      \<and> (case next_pointer P r of
            None \<Rightarrow> rs = []
          | Some nextPage \<Rightarrow> rs \<noteq> [] \<and> serves P username nextPage (snd sent) rs))"

section \<open>Example remote sources\<close>

definition page_response :: "jsval list \<Rightarrow> string option \<Rightarrow> response" where
  "page_response items link =
     \<lparr>res_status = 200, res_text = example_stringify (JArr items),
      res_json = Inr (JArr items), res_link = link\<rparr>"

definition next_link :: "nat \<Rightarrow> string" where
  \<open>next_link n =
     ''<https://api.github.com/user/1/starred?per_page=100&page='' @ show_nat n @ ''>; rel="next"''\<close>

definition repo :: "nat \<Rightarrow> jsval" where
  "repo k = JObj [(''id'', JNum (JFinite (of_nat k)))]"

text \<open>A source whose every page points to page 2: the chain of \<open>next\<close> pointers is a cycle.\<close>

definition cyclic_remote ::
  "unit \<Rightarrow> string \<Rightarrow> (string \<times> string) list \<Rightarrow> (exn + response) \<times> unit" where
  "cyclic_remote w url headers = (Inr (page_response [repo 1] (Some (next_link 2))), w)"

text \<open>
  A source of \<open>N\<close> pages of one record each. Its state counts the requests it has
  answered; the answer to request \<open>k\<close> (from 0) holds the record \<open>k\<close> and points to page
  \<open>k + 2\<close>, and the answer to request \<open>N - 1\<close> has no Link header.
\<close>

definition counting_response :: "nat \<Rightarrow> nat \<Rightarrow> response" where
  "counting_response N k =
     page_response [repo k] (if k + 1 < N then Some (next_link (k + 2)) else None)"

definition counting_remote ::
  "nat \<Rightarrow> nat \<Rightarrow> string \<Rightarrow> (string \<times> string) list \<Rightarrow> (exn + response) \<times> nat" where
  "counting_remote N k url headers = (Inr (counting_response N k), k + 1)"

text \<open>A source of five pages whose answer to the third request is an error of the rate limit.\<close>

definition failing_response :: response where
  "failing_response =
     \<lparr>res_status = 403, res_text = ''rate limit exceeded'',
      res_json = Inl (Error ''Unexpected token''), res_link = None\<rparr>"

definition failing_remote ::
  "nat \<Rightarrow> string \<Rightarrow> (string \<times> string) list \<Rightarrow> (exn + response) \<times> nat" where
  "failing_remote k url headers =
     (if k = 2 then Inr failing_response else Inr (counting_response 5 k), k + 1)"

text \<open>A source of one page, whose body is given, with no Link header.\<close>

definition single_response :: "jsval \<Rightarrow> response" where
  "single_response body =
     \<lparr>res_status = 200, res_text = example_stringify body, res_json = Inr body,
      res_link = None\<rparr>"

definition single_remote ::
  "jsval \<Rightarrow> unit \<Rightarrow> string \<Rightarrow> (string \<times> string) list \<Rightarrow> (exn + response) \<times> unit" where
  "single_remote body w url headers = (Inr (single_response body), w)"

text \<open>A source whose one answer has the given status and text, and no Link header.\<close>

definition status_response :: "nat \<Rightarrow> string \<Rightarrow> response" where
  "status_response st body =
     \<lparr>res_status = st, res_text = body, res_json = Inl (Error ''Unexpected end of JSON input''),
      res_link = None\<rparr>"

definition status_remote ::
  "nat \<Rightarrow> string \<Rightarrow> unit \<Rightarrow> string \<Rightarrow> (string \<times> string) list \<Rightarrow> (exn + response) \<times> unit" where
  "status_remote st body w url headers = (Inr (status_response st body), w)"

definition start :: "'w \<Rightarrow> 'w world" where
  "start w = \<lparr>remote = w, files = Map.empty, fetched = []\<rparr>"

section \<open>Field escaping\<close>










lemma csvEscape_nullish: "nullish v \<Longrightarrow> csvEscape P v = Inr []"
  by (auto simp: csvEscape_def nullish_def)





section \<open>The Link-header parsers: properties\<close>

lemma link_entry_recorded: "link_entry P p info = Inr (record_entry P p info)"
  by (auto simp: link_entry_def link_try_def record_entry_def recorded_pair_def Let_def
           split: sum.splits option.splits)

lemma link_entries_fold: "link_entries P ps info = Inr (fold (record_entry P) ps info)"
  by (induction ps arbitrary: info) (simp_all add: link_entry_recorded)

lemma recorded_pair_empty: "recorded_pair P [] = None"
  by (simp add: recorded_pair_def)

lemma parseLinkHeader_fold:
  "parseLinkHeader P (Some l) = Inr (fold (record_entry P) (split_on CHR '','' l) Map.empty)"
  by (simp add: parseLinkHeader_def link_entries_fold record_entry_def recorded_pair_empty)

lemma recorded_pair_iff: "recorded_pair P p = Some (rel, n) \<longleftrightarrow> entry_records P p rel n"
  by (auto simp: recorded_pair_def entry_records_def Let_def split: sum.splits option.splits)

lemma fold_record_entry_lookup:
  "fold (record_entry P) ps info rel = Some n \<Longrightarrow>
   info rel = Some n \<or> (\<exists>p \<in> set ps. recorded_pair P p = Some (rel, n))"
proof (induction ps arbitrary: info)
  case Nil
  then show ?case by simp
next
  case (Cons p ps)
  from Cons.IH [of "record_entry P p info"] Cons.prems
  consider "record_entry P p info rel = Some n" | "\<exists>p \<in> set ps. recorded_pair P p = Some (rel, n)"
    by auto
  then show ?case
  proof cases
    case 1
    then show ?thesis
      by (auto simp: record_entry_def assign_def split: option.splits if_splits)
  next
    case 2
    then show ?thesis by auto
  qed
qed

lemma next_entries_Cons:
  "next_entries P (p # ps) =
     (case next_candidate P p of Some n \<Rightarrow> Inr (Some n) | None \<Rightarrow> next_entries P ps)"
  by (auto simp: next_candidate_def next_try_def recorded_pair_def Let_def
           split: sum.splits option.splits)

lemma next_entries_total: "\<exists>r. next_entries P ps = Inr r"
  by (induction ps) (auto simp: next_entries_Cons simp del: next_entries.simps(2) split: option.splits)

lemma next_entries_Some:
  "next_entries P ps = Inr (Some n) \<Longrightarrow> \<exists>p \<in> set ps. next_candidate P p = Some n"
  by (induction ps) (auto simp: next_entries_Cons simp del: next_entries.simps(2) split: option.splits)

lemma next_candidate_truthy: "next_candidate P p = Some n \<Longrightarrow> truthy n \<and> isFinite n"
  by (auto simp: next_candidate_def recorded_pair_def Let_def split: sum.splits option.splits if_splits)

lemma parseNextFromLink_entries:
  "parseNextFromLink P (Some l) = next_entries P (split_on CHR '','' l)"
  by (simp add: parseNextFromLink_def next_entries_Cons recorded_pair_empty next_candidate_def
           del: next_entries.simps(2))

lemma link_entry_short: "length (split_on CHR '';'' p) < 2 \<Longrightarrow> link_entry P p info = Inr info"
  by (simp add: link_entry_def)

lemma link_entry_bad_url:
  "new_URL P (strip_angle (trim (split_on CHR '';'' p ! 0))) = Inl e \<Longrightarrow>
   link_entry P p info = Inr info"
  by (simp add: link_entry_def link_try_def Let_def)

text \<open>
  Claim C9. Both parsers return a value for every input and never an exception: for no
  header and for the empty header the empty cursor (for \<open>parseNextFromLink\<close>, no page), and
  for every string a cursor. An entry with fewer than two segments and an entry whose URL
  the URL parser rejects leave the cursor as it was.
\<close>

theorem parsers_never_raise:
  "parseLinkHeader P None = Inr Map.empty
   \<and> parseLinkHeader P (Some []) = Inr Map.empty
   \<and> (\<exists>info. parseLinkHeader P link = Inr info)
   \<and> parseNextFromLink P None = Inr None
   \<and> parseNextFromLink P (Some []) = Inr None
   \<and> (\<exists>nextPage. parseNextFromLink P link = Inr nextPage)
   \<and> (\<forall>p info. length (split_on CHR '';'' p) < 2 \<longrightarrow> link_entry P p info = Inr info)
   \<and> (\<forall>p info e. new_URL P (strip_angle (trim (split_on CHR '';'' p ! 0))) = Inl e \<longrightarrow>
         link_entry P p info = Inr info)"
proof -
  have "\<exists>info. parseLinkHeader P link = Inr info"
    by (cases link) (simp_all add: parseLinkHeader_def link_entries_fold)
  moreover have "\<exists>nextPage. parseNextFromLink P link = Inr nextPage"
    by (cases link) (simp_all add: parseNextFromLink_def next_entries_total)
  ultimately show ?thesis
    by (simp add: parseLinkHeader_def parseNextFromLink_def link_entry_short link_entry_bad_url)
qed

text \<open>An entry without segments and an entry whose URL is malformed are dropped.\<close>

theorem parsers_never_raise_witness:
  \<open>length (split_on CHR '';'' ''no segments'') < 2
   \<and> link_entry offline ''no segments'' Map.empty = Inr Map.empty
   \<and> new_URL offline (strip_angle (trim (split_on CHR '';'' ''<not a url>; rel="next"'' ! 0)))
       = Inl (Error ''Invalid URL'')
   \<and> link_entry offline ''<not a url>; rel="next"'' Map.empty = Inr Map.empty
   \<and> parseLinkHeader offline (Some ''<not a url>; rel="next"'') = Inr Map.empty\<close>
proof -
  have a: \<open>length (split_on CHR '';'' ''no segments'') < 2\<close> by code_simp
  have b: \<open>new_URL offline (strip_angle (trim (split_on CHR '';'' ''<not a url>; rel="next"'' ! 0)))
       = Inl (Error ''Invalid URL'')\<close> by code_simp
  have c: \<open>split_on CHR '','' ''<not a url>; rel="next"'' = [''<not a url>; rel="next"'']\<close>
    by code_simp
  have d: \<open>''<not a url>; rel="next"'' \<noteq> []\<close> by simp
  from parsers_never_raise [of offline] a b
  have \<open>link_entry offline ''no segments'' Map.empty = Inr Map.empty\<close>
    and e: \<open>link_entry offline ''<not a url>; rel="next"'' Map.empty = Inr Map.empty\<close>
    by blast+
  with a b c d show ?thesis
    by (simp add: parseLinkHeader_def del: split_on.simps)
qed

text \<open>
  Claim C4, as amended. A field \<open>rel\<close> with the page \<open>n\<close> is in the cursor of
  \<open>parseLinkHeader\<close> only if an entry of the header has a second segment matching
  \<open>rel="..."\<close> with that name and a URL whose \<open>page\<close> parameter is not empty and converts to
  \<open>n\<close>, a number that is neither zero nor NaN; \<open>parseNextFromLink\<close> returns \<open>n\<close> only if
  such an entry has the name \<open>next\<close> and \<open>n\<close> is finite. An entry that fails these
  conditions for every name and number leaves the cursor as it was.
\<close>

theorem parsers_record_only_if:
  "(parseLinkHeader P (Some l) = Inr info \<and> info rel = Some n \<longrightarrow>
      (\<exists>p \<in> set (split_on CHR '','' l). entry_records P p rel n))
   \<and> (parseNextFromLink P (Some l) = Inr (Some n) \<longrightarrow>
      (\<exists>p \<in> set (split_on CHR '','' l). entry_records P p ''next'' n \<and> isFinite n))
   \<and> ((\<forall>rel n. \<not> entry_records P p rel n) \<longrightarrow> link_entry P p info0 = Inr info0)"
proof (intro conjI impI)
  assume "parseLinkHeader P (Some l) = Inr info \<and> info rel = Some n"
  then have "fold (record_entry P) (split_on CHR '','' l) Map.empty rel = Some n"
    by (simp add: parseLinkHeader_fold)
  from fold_record_entry_lookup [OF this]
  show "\<exists>p \<in> set (split_on CHR '','' l). entry_records P p rel n"
    by (simp add: recorded_pair_iff)
next
  assume "parseNextFromLink P (Some l) = Inr (Some n)"
  then have "next_entries P (split_on CHR '','' l) = Inr (Some n)"
    by (simp add: parseNextFromLink_entries)
  from next_entries_Some [OF this]
  obtain p where p: "p \<in> set (split_on CHR '','' l)" "next_candidate P p = Some n"
    by blast
  from p(2) have "recorded_pair P p = Some (''next'', n) \<and> isFinite n"
    by (auto simp: next_candidate_def split: option.splits if_splits)
  with p(1) show "\<exists>p \<in> set (split_on CHR '','' l). entry_records P p ''next'' n \<and> isFinite n"
    by (auto simp: recorded_pair_iff)
next
  assume "\<forall>rel n. \<not> entry_records P p rel n"
  then have "recorded_pair P p = None"
    by (cases "recorded_pair P p") (auto simp: recorded_pair_iff)
  then show "link_entry P p info0 = Inr info0"
    by (simp add: link_entry_recorded record_entry_def)
qed

lemma example_header_split:
  \<open>split_on CHR '','' ''<https://x/y?page=2>; rel="next", <https://x/y?page=5>; rel="last"''
     = [''<https://x/y?page=2>; rel="next"'', '' <https://x/y?page=5>; rel="last"'']\<close>
  by code_simp

lemma example_header_pairs:
  \<open>recorded_pair offline ''<https://x/y?page=2>; rel="next"'' = Some (''next'', JFinite 2)\<close>
  \<open>recorded_pair offline '' <https://x/y?page=5>; rel="last"'' = Some (''last'', JFinite 5)\<close>
  by code_simp+

lemma example_header_parsed:
  \<open>parseLinkHeader offline
      (Some ''<https://x/y?page=2>; rel="next", <https://x/y?page=5>; rel="last"'')
     = Inr [''next'' \<mapsto> JFinite 2, ''last'' \<mapsto> JFinite 5]\<close>
  unfolding parseLinkHeader_fold example_header_split
  by (simp add: example_header_pairs record_entry_def assign_def)

text \<open>The header of the specification's example, and an entry without a page.\<close>

theorem parsers_record_only_if_witness:
  \<open>parseLinkHeader offline
      (Some ''<https://x/y?page=2>; rel="next", <https://x/y?page=5>; rel="last"'')
     = Inr [''next'' \<mapsto> JFinite 2, ''last'' \<mapsto> JFinite 5]
   \<and> (\<exists>p \<in> set [''<https://x/y?page=2>; rel="next"'', '' <https://x/y?page=5>; rel="last"''].
         entry_records offline p ''last'' (JFinite 5))
   \<and> parseNextFromLink offline
        (Some ''<https://x/y?page=2>; rel="next", <https://x/y?page=5>; rel="last"'')
       = Inr (Some (JFinite 2))
   \<and> (\<exists>p \<in> set [''<https://x/y?page=2>; rel="next"'', '' <https://x/y?page=5>; rel="last"''].
         entry_records offline p ''next'' (JFinite 2) \<and> isFinite (JFinite 2))
   \<and> (\<forall>rel n. \<not> entry_records offline ''<https://x/y>; rel="next"'' rel n)
   \<and> link_entry offline ''<https://x/y>; rel="next"'' Map.empty = Inr Map.empty\<close>
proof -
  let ?l = \<open>''<https://x/y?page=2>; rel="next", <https://x/y?page=5>; rel="last"''\<close>
  let ?info = \<open>[''next'' \<mapsto> JFinite 2, ''last'' \<mapsto> JFinite 5]\<close>
  have a: \<open>parseLinkHeader offline (Some ?l) = Inr ?info \<and> ?info ''last'' = Some (JFinite 5)\<close>
    by (simp add: example_header_parsed)
  have b: \<open>parseNextFromLink offline (Some ?l) = Inr (Some (JFinite 2))\<close>
    by code_simp
  have \<open>recorded_pair offline ''<https://x/y>; rel="next"'' = None\<close>
    by code_simp
  then have c: \<open>\<forall>rel n. \<not> entry_records offline ''<https://x/y>; rel="next"'' rel n\<close>
    by (simp add: recorded_pair_iff [symmetric])
  from parsers_record_only_if
         [of offline ?l ?info \<open>''last''\<close> \<open>JFinite 5\<close> \<open>''<https://x/y>; rel="next"''\<close> Map.empty]
       parsers_record_only_if
         [of offline ?l ?info \<open>''next''\<close> \<open>JFinite 2\<close> \<open>''<https://x/y>; rel="next"''\<close> Map.empty]
       a b c
  show ?thesis
    unfolding example_header_split by simp
qed

text \<open>
  Claim C4 as stated fails: an entry whose relation is \<open>foo\<close> is recorded, and so is an
  entry whose page is \<open>-3\<close>, by both parsers.
\<close>

theorem recorded_entry_counterexample:
  \<open>parseLinkHeader offline (Some ''<https://x/y?page=2>; rel="foo"'')
     = Inr [''foo'' \<mapsto> JFinite 2]
   \<and> ''foo'' \<notin> {''first'', ''prev'', ''next'', ''last''}
   \<and> parseLinkHeader offline (Some ''<https://x/y?page=-3>; rel="next"'')
     = Inr [''next'' \<mapsto> JFinite (- 3)]
   \<and> parseNextFromLink offline (Some ''<https://x/y?page=-3>; rel="next"'')
     = Inr (Some (JFinite (- 3)))
   \<and> \<not> (0 :: rat) < - 3\<close>
proof -
  have \<open>recorded_pair offline ''<https://x/y?page=2>; rel="foo"'' = Some (''foo'', JFinite 2)\<close>
    by code_simp
  then have a: \<open>parseLinkHeader offline (Some ''<https://x/y?page=2>; rel="foo"'')
     = Inr [''foo'' \<mapsto> JFinite 2]\<close>
    unfolding parseLinkHeader_fold by (simp add: record_entry_def assign_def)
  have \<open>recorded_pair offline ''<https://x/y?page=-3>; rel="next"''
     = Some (''next'', JFinite (- 3))\<close>
    by code_simp
  then have b: \<open>parseLinkHeader offline (Some ''<https://x/y?page=-3>; rel="next"'')
     = Inr [''next'' \<mapsto> JFinite (- 3)]\<close>
    unfolding parseLinkHeader_fold by (simp add: record_entry_def assign_def)
  have c: \<open>parseNextFromLink offline (Some ''<https://x/y?page=-3>; rel="next"'')
     = Inr (Some (JFinite (- 3)))\<close>
    by code_simp
  from a b c show ?thesis by simp
qed

lemma assign_commute:
  "(rel = rel' \<longrightarrow> n = m) \<Longrightarrow>
   assign (assign info rel n) rel' m = assign (assign info rel' m) rel n"
  by (auto simp: assign_def fun_upd_twist)

lemma record_entry_commute:
  assumes "case (recorded_pair P p, recorded_pair P q) of
             (Some (rel, n), Some (rel', m)) \<Rightarrow> rel = rel' \<longrightarrow> n = m
           | _ \<Rightarrow> True"
  shows "record_entry P p \<circ> record_entry P q = record_entry P q \<circ> record_entry P p"
proof (rule ext)
  fix info
  show "(record_entry P p \<circ> record_entry P q) info = (record_entry P q \<circ> record_entry P p) info"
  proof (cases "recorded_pair P p")
    case None
    then show ?thesis by (simp add: record_entry_def)
  next
    case p: (Some a)
    show ?thesis
    proof (cases "recorded_pair P q")
      case None
      then show ?thesis by (simp add: record_entry_def)
    next
      case q: (Some b)
      obtain rel n rel' m where ab: "a = (rel, n)" "b = (rel', m)"
        by (cases a, cases b) auto
      with assms p q have "rel = rel' \<longrightarrow> n = m" by simp
      then show ?thesis
        using assign_commute [of rel' rel m n info] by (auto simp: record_entry_def p q ab)
    qed
  qed
qed

text \<open>
  Claim C8, as amended. Parsing is a function of the header, and the cursor does not
  depend on the order of the comma-separated entries when no relation name is recorded by
  two entries with different pages.
\<close>

theorem parseLinkHeader_order_independent:
  assumes "mset (split_on CHR '','' l') = mset (split_on CHR '','' l)"
    and "one_page_per_relation P l"
  shows "parseLinkHeader P (Some l') = parseLinkHeader P (Some l)"
proof -
  have "fold (record_entry P) (split_on CHR '','' l) = fold (record_entry P) (split_on CHR '','' l')"
  proof (rule fold_multiset_equiv)
    fix p q
    assume "p \<in> set (split_on CHR '','' l)" and "q \<in> set (split_on CHR '','' l)"
    with assms(2) show "record_entry P p \<circ> record_entry P q = record_entry P q \<circ> record_entry P p"
      unfolding one_page_per_relation_def by (intro record_entry_commute) blast
  next
    show "mset (split_on CHR '','' l) = mset (split_on CHR '','' l')"
      using assms(1) by simp
  qed
  then show ?thesis by (simp add: parseLinkHeader_fold)
qed

lemma swapped_header_split:
  \<open>split_on CHR '','' '' <https://x/y?page=5>; rel="last",<https://x/y?page=2>; rel="next"''
     = ['' <https://x/y?page=5>; rel="last"'', ''<https://x/y?page=2>; rel="next"'']\<close>
  by code_simp

text \<open>The example header with its two entries swapped.\<close>

theorem parseLinkHeader_order_independent_witness:
  \<open>mset (split_on CHR '','' '' <https://x/y?page=5>; rel="last",<https://x/y?page=2>; rel="next"'')
     = mset (split_on CHR '','' ''<https://x/y?page=2>; rel="next", <https://x/y?page=5>; rel="last"'')
   \<and> one_page_per_relation offline
         ''<https://x/y?page=2>; rel="next", <https://x/y?page=5>; rel="last"''
   \<and> parseLinkHeader offline
         (Some '' <https://x/y?page=5>; rel="last",<https://x/y?page=2>; rel="next"'')
       = Inr [''next'' \<mapsto> JFinite 2, ''last'' \<mapsto> JFinite 5]\<close>
proof -
  let ?l = \<open>''<https://x/y?page=2>; rel="next", <https://x/y?page=5>; rel="last"''\<close>
  let ?l' = \<open>'' <https://x/y?page=5>; rel="last",<https://x/y?page=2>; rel="next"''\<close>
  have a: \<open>mset (split_on CHR '','' ?l') = mset (split_on CHR '','' ?l)\<close>
    unfolding example_header_split swapped_header_split by simp
  have b: \<open>one_page_per_relation offline ?l\<close>
    unfolding one_page_per_relation_def example_header_split
    by (simp add: example_header_pairs)
  from parseLinkHeader_order_independent [OF a b] a b show ?thesis
    by (simp only: example_header_parsed simp_thms)
qed

text \<open>
  Claim C8 as stated fails: with two entries of the relation \<open>next\<close>, the later one wins,
  so swapping them changes the cursor.
\<close>

theorem order_dependence_counterexample:
  \<open>mset (split_on CHR '','' ''<https://x/y?page=3>; rel="next",<https://x/y?page=2>; rel="next"'')
     = mset (split_on CHR '','' ''<https://x/y?page=2>; rel="next",<https://x/y?page=3>; rel="next"'')
   \<and> parseLinkHeader offline
         (Some ''<https://x/y?page=2>; rel="next",<https://x/y?page=3>; rel="next"'')
       = Inr [''next'' \<mapsto> JFinite 3]
   \<and> parseLinkHeader offline
         (Some ''<https://x/y?page=3>; rel="next",<https://x/y?page=2>; rel="next"'')
       = Inr [''next'' \<mapsto> JFinite 2]
   \<and> parseLinkHeader offline
         (Some ''<https://x/y?page=3>; rel="next",<https://x/y?page=2>; rel="next"'')
       \<noteq> parseLinkHeader offline
         (Some ''<https://x/y?page=2>; rel="next",<https://x/y?page=3>; rel="next"'')\<close>
proof -
  have s1: \<open>split_on CHR '','' ''<https://x/y?page=2>; rel="next",<https://x/y?page=3>; rel="next"''
     = [''<https://x/y?page=2>; rel="next"'', ''<https://x/y?page=3>; rel="next"'']\<close>
    by code_simp
  have s2: \<open>split_on CHR '','' ''<https://x/y?page=3>; rel="next",<https://x/y?page=2>; rel="next"''
     = [''<https://x/y?page=3>; rel="next"'', ''<https://x/y?page=2>; rel="next"'']\<close>
    by code_simp
  have p3: \<open>recorded_pair offline ''<https://x/y?page=3>; rel="next"'' = Some (''next'', JFinite 3)\<close>
    by code_simp
  have a: \<open>parseLinkHeader offline
         (Some ''<https://x/y?page=2>; rel="next",<https://x/y?page=3>; rel="next"'')
       = Inr [''next'' \<mapsto> JFinite 3]\<close>
    unfolding parseLinkHeader_fold s1
    by (simp add: example_header_pairs p3 record_entry_def assign_def)
  have b: \<open>parseLinkHeader offline
         (Some ''<https://x/y?page=3>; rel="next",<https://x/y?page=2>; rel="next"'')
       = Inr [''next'' \<mapsto> JFinite 2]\<close>
    unfolding parseLinkHeader_fold s2
    by (simp add: example_header_pairs p3 record_entry_def assign_def)
  have c: \<open>[''next'' \<mapsto> JFinite 2] \<noteq> [''next'' \<mapsto> JFinite 3]\<close>
  proof
    assume \<open>[''next'' \<mapsto> JFinite 2] = [''next'' \<mapsto> JFinite 3]\<close>
    then have \<open>[''next'' \<mapsto> JFinite 2] ''next'' = [''next'' \<mapsto> JFinite 3] ''next''\<close>
      by (rule arg_cong)
    then show False by simp
  qed
  have d: \<open>mset (split_on CHR '','' ''<https://x/y?page=3>; rel="next",<https://x/y?page=2>; rel="next"'')
     = mset (split_on CHR '','' ''<https://x/y?page=2>; rel="next",<https://x/y?page=3>; rel="next"'')\<close>
    unfolding s1 s2 by simp
  show ?thesis
    unfolding a b using c d by (simp only: sum.inject simp_thms not_False_eq_True)
qed

section \<open>The header row\<close>

lemma join_lines_first:
  "\<exists>rest. join [CHR 0x0A] (h # rows) @ [CHR 0x0A] = h @ CHR 0x0A # rest"
  by (cases rows) auto

lemma first_line:
  assumes "CHR 0x0A \<notin> set h"
  shows "takeWhile (\<lambda>c. c \<noteq> CHR 0x0A) (join [CHR 0x0A] (h # rows) @ [CHR 0x0A]) = h"
proof -
  obtain rest where "join [CHR 0x0A] (h # rows) @ [CHR 0x0A] = h @ CHR 0x0A # rest"
    using join_lines_first by blast
  moreover have "takeWhile (\<lambda>c. c \<noteq> CHR 0x0A) (h @ CHR 0x0A # rest) = h"
    using assms by (auto simp: takeWhile_tail)
  ultimately show ?thesis by simp
qed

lemma repos_header_line:
  "join '','' repos_headers = ''id,full_name,url,description,stars,language,owner_login,owner_url''"
  by (simp add: repos_headers_def)

lemma csv_header_line:
  "join '','' csv_headers
     = ''id,full_name,html_url,description,stargazers_count,language,owner_login,owner_html_url''"
  by (simp add: csv_headers_def)

text \<open>
  Claim C6, as amended. Whatever the items, the first row of the output of
  \<open>toCSVFromRepos\<close>, the serializer of the dashboard, is
  \<open>id,full_name,url,description,stars,language,owner_login,owner_url\<close>, and the first row
  of the output of \<open>toCSV\<close>, the serializer of the export route, is
  \<open>id,full_name,html_url,description,stargazers_count,language,owner_login,owner_html_url\<close>.
\<close>

theorem header_rows:
  "(toCSVFromRepos P repos = Inr out \<longrightarrow>
      takeWhile (\<lambda>c. c \<noteq> CHR 0x0A) out
        = ''id,full_name,url,description,stars,language,owner_login,owner_url'')
   \<and> (toCSV P all = Inr out' \<longrightarrow>
      takeWhile (\<lambda>c. c \<noteq> CHR 0x0A) out'
        = ''id,full_name,html_url,description,stargazers_count,language,owner_login,owner_html_url'')"
proof (intro conjI impI)
  assume "toCSVFromRepos P repos = Inr out"
  then obtain rows where "out = join [CHR 0x0A] (join '','' repos_headers # rows) @ [CHR 0x0A]"
    by (auto simp: toCSVFromRepos_def split: sum.splits)
  then show "takeWhile (\<lambda>c. c \<noteq> CHR 0x0A) out
        = ''id,full_name,url,description,stars,language,owner_login,owner_url''"
    by (simp add: repos_header_line first_line)
next
  assume "toCSV P all = Inr out'"
  then obtain rows where "out' = join [CHR 0x0A] (join '','' csv_headers # rows) @ [CHR 0x0A]"
    by (auto simp: toCSV_def split: sum.splits)
  then show "takeWhile (\<lambda>c. c \<noteq> CHR 0x0A) out'
        = ''id,full_name,html_url,description,stargazers_count,language,owner_login,owner_html_url''"
    by (simp add: csv_header_line first_line)
qed

text \<open>One normalized item through the dashboard serializer, one raw record through \<open>toCSV\<close>.\<close>

theorem header_rows_witness:
  \<open>toCSVFromRepos offline
      [JObj [(''id'', JNum (JFinite 7)), (''fullName'', JStr ''a/b''),
             (''stars'', JNum (JFinite 42)), (''language'', JNull),
             (''owner'', JObj [(''login'', JStr ''a''), (''avatarUrl'', JStr ''u''),
                               (''url'', JStr ''p'')])]]
     = Inr (''id,full_name,url,description,stars,language,owner_login,owner_url''
            @ [CHR 0x0A] @ ''7,a/b,,,42,,a,p'' @ [CHR 0x0A])
   \<and> takeWhile (\<lambda>c. c \<noteq> CHR 0x0A)
        (''id,full_name,url,description,stars,language,owner_login,owner_url''
         @ [CHR 0x0A] @ ''7,a/b,,,42,,a,p'' @ [CHR 0x0A])
       = ''id,full_name,url,description,stars,language,owner_login,owner_url''
   \<and> toCSV offline
      [JObj [(''id'', JNum (JFinite 7)), (''full_name'', JStr ''a/b''),
             (''stargazers_count'', JNum (JFinite 42)), (''language'', JNull),
             (''owner'', JObj [(''login'', JStr ''a''), (''avatar_url'', JStr ''u''),
                               (''html_url'', JStr ''p'')])]]
     = Inr (''id,full_name,html_url,description,stargazers_count,language,owner_login,owner_html_url''
            @ [CHR 0x0A] @ ''7,a/b,,,42,,a,p'' @ [CHR 0x0A])\<close>
proof -
  let ?item = \<open>JObj [(''id'', JNum (JFinite 7)), (''fullName'', JStr ''a/b''),
             (''stars'', JNum (JFinite 42)), (''language'', JNull),
             (''owner'', JObj [(''login'', JStr ''a''), (''avatarUrl'', JStr ''u''),
                               (''url'', JStr ''p'')])]\<close>
  let ?raw = \<open>JObj [(''id'', JNum (JFinite 7)), (''full_name'', JStr ''a/b''),
             (''stargazers_count'', JNum (JFinite 42)), (''language'', JNull),
             (''owner'', JObj [(''login'', JStr ''a''), (''avatar_url'', JStr ''u''),
                               (''html_url'', JStr ''p'')])]\<close>
  let ?out = \<open>''id,full_name,url,description,stars,language,owner_login,owner_url''
            @ [CHR 0x0A] @ ''7,a/b,,,42,,a,p'' @ [CHR 0x0A]\<close>
  have a: \<open>toCSVFromRepos offline [?item] = Inr ?out\<close>
    by code_simp
  have b: \<open>toCSV offline [?raw]
     = Inr (''id,full_name,html_url,description,stargazers_count,language,owner_login,owner_html_url''
            @ [CHR 0x0A] @ ''7,a/b,,,42,,a,p'' @ [CHR 0x0A])\<close>
    by code_simp
  from header_rows [of offline \<open>[?item]\<close> ?out \<open>[?raw]\<close>] a b show ?thesis
    by (simp only: simp_thms)
qed

text \<open>
  Claim C6 as stated fails for the serializer of the export route: its header names the
  fields \<open>html_url\<close>, \<open>stargazers_count\<close> and \<open>owner_html_url\<close>.
\<close>

theorem export_header_counterexample:
  \<open>toCSV offline
      [JObj [(''id'', JNum (JFinite 7)), (''full_name'', JStr ''a/b''),
             (''stargazers_count'', JNum (JFinite 42)), (''language'', JNull),
             (''owner'', JObj [(''login'', JStr ''a''), (''avatar_url'', JStr ''u''),
                               (''html_url'', JStr ''p'')])]]
     = Inr (''id,full_name,html_url,description,stargazers_count,language,owner_login,owner_html_url''
            @ [CHR 0x0A] @ ''7,a/b,,,42,,a,p'' @ [CHR 0x0A])
   \<and> takeWhile (\<lambda>c. c \<noteq> CHR 0x0A)
        (''id,full_name,html_url,description,stargazers_count,language,owner_login,owner_html_url''
         @ [CHR 0x0A] @ ''7,a/b,,,42,,a,p'' @ [CHR 0x0A])
       \<noteq> ''id,full_name,url,description,stars,language,owner_login,owner_url''\<close>
proof -
  have \<open>toCSV offline
      [JObj [(''id'', JNum (JFinite 7)), (''full_name'', JStr ''a/b''),
             (''stargazers_count'', JNum (JFinite 42)), (''language'', JNull),
             (''owner'', JObj [(''login'', JStr ''a''), (''avatar_url'', JStr ''u''),
                               (''html_url'', JStr ''p'')])]]
     = Inr (''id,full_name,html_url,description,stargazers_count,language,owner_login,owner_html_url''
            @ [CHR 0x0A] @ ''7,a/b,,,42,,a,p'' @ [CHR 0x0A])\<close>
    by code_simp
  then show ?thesis by simp
qed

section \<open>The normalizer: the example record\<close>

text \<open>
  Claim C7, as amended. For the raw record of the claim the normalizer gives \<open>id\<close> 7,
  \<open>fullName\<close> \<open>a/b\<close>, \<open>stars\<close> 42, \<open>language\<close> \<open>null\<close> and the owner with \<open>login\<close>,
  \<open>avatarUrl\<close> and \<open>url\<close>; \<open>name\<close>, \<open>url\<close> and \<open>description\<close> are \<open>undefined\<close>, since the
  record has no such fields, and are left out of the response.
\<close>

theorem normalize_example:
  "normalize P
     (JObj [(''id'', JNum (JFinite 7)), (''full_name'', JStr ''a/b''),
            (''stargazers_count'', JNum (JFinite 42)), (''language'', JNull),
            (''owner'', JObj [(''login'', JStr ''a''), (''avatar_url'', JStr ''u''),
                              (''html_url'', JStr ''p'')])])
     = Inr (JObj [(''id'', JNum (JFinite 7)), (''name'', JUndefined),
                  (''fullName'', JStr ''a/b''), (''url'', JUndefined),
                  (''description'', JUndefined), (''stars'', JNum (JFinite 42)),
                  (''language'', JNull),
                  (''owner'', JObj [(''login'', JStr ''a''), (''avatarUrl'', JStr ''u''),
                                    (''url'', JStr ''p'')])])
   \<and> defined_props
        (JObj [(''id'', JNum (JFinite 7)), (''name'', JUndefined),
               (''fullName'', JStr ''a/b''), (''url'', JUndefined),
               (''description'', JUndefined), (''stars'', JNum (JFinite 42)),
               (''language'', JNull),
               (''owner'', JObj [(''login'', JStr ''a''), (''avatarUrl'', JStr ''u''),
                                 (''url'', JStr ''p'')])])
     = JObj [(''id'', JNum (JFinite 7)), (''fullName'', JStr ''a/b''),
             (''stars'', JNum (JFinite 42)), (''language'', JNull),
             (''owner'', JObj [(''login'', JStr ''a''), (''avatarUrl'', JStr ''u''),
                               (''url'', JStr ''p'')])]"
  by (simp add: normalize_def nullish_def get_prop_def)

text \<open>
  Claim C7 as stated fails: the item has no field \<open>starCount\<close> and no field
  \<open>primaryLanguage\<close>; the values are under \<open>stars\<close> and \<open>language\<close>.
\<close>

theorem normalize_names_counterexample:
  "(case normalize offline
     (JObj [(''id'', JNum (JFinite 7)), (''full_name'', JStr ''a/b''),
            (''stargazers_count'', JNum (JFinite 42)), (''language'', JNull),
            (''owner'', JObj [(''login'', JStr ''a''), (''avatar_url'', JStr ''u''),
                              (''html_url'', JStr ''p'')])])
    of Inl e \<Rightarrow> JUndefined | Inr item \<Rightarrow> defined_props item)
     \<noteq> JObj [(''id'', JNum (JFinite 7)), (''fullName'', JStr ''a/b''),
             (''starCount'', JNum (JFinite 42)), (''primaryLanguage'', JNull),
             (''owner'', JObj [(''login'', JStr ''a''), (''avatarUrl'', JStr ''u''),
                               (''url'', JStr ''p'')])]
   \<and> (case normalize offline
     (JObj [(''id'', JNum (JFinite 7)), (''full_name'', JStr ''a/b''),
            (''stargazers_count'', JNum (JFinite 42)), (''language'', JNull),
            (''owner'', JObj [(''login'', JStr ''a''), (''avatar_url'', JStr ''u''),
                              (''html_url'', JStr ''p'')])])
    of Inl e \<Rightarrow> [] | Inr item \<Rightarrow>
         [get_prop item ''starCount'', get_prop item ''primaryLanguage'',
          get_prop item ''stars'', get_prop item ''language''])
     = [JUndefined, JUndefined, JNum (JFinite 42), JNull]"
  by (simp add: normalize_def nullish_def get_prop_def)

section \<open>The loop of the export route: properties\<close>

declare aggregate.simps [simp del]

lemma aggregate_step:
  "i < 100 \<Longrightarrow>
   aggregate P username i page all W =
     (case iteration P username page all W of
        Continue nextPage all' W' \<Rightarrow> aggregate P username (i + 1) nextPage all' W'
      | Exit x \<Rightarrow> x)"
  by (subst aggregate.simps) simp

lemma aggregate_cap: "aggregate P username 100 page all W = Done all W"
  by (subst aggregate.simps) simp

lemma aggregate_iterations:
  "iterations P username n page all W = Some (page', all', W') \<Longrightarrow> i + n \<le> 100 \<Longrightarrow>
   aggregate P username i page all W = aggregate P username (i + n) page' all' W'"
proof (induction n arbitrary: i page all W)
  case 0
  then show ?case by simp
next
  case (Suc n)
  from Suc.prems(1) obtain q all1 W1 where
    step: "iteration P username page all W = Continue q all1 W1"
    and rest: "iterations P username n q all1 W1 = Some (page', all', W')"
    by (auto split: step.splits)
  from Suc.prems(2) have "i < 100" and "(i + 1) + n \<le> 100" by simp_all
  with Suc.IH [OF rest, of "i + 1"] step show ?case
    by (simp add: aggregate_step)
qed

lemma aggregate_exit:
  assumes "iterations P username n page all W = Some (page', all', W')"
    and "i + n < 100"
    and "iteration P username page' all' W' = Exit x"
  shows "aggregate P username i page all W = x"
proof -
  from assms(2) have "i + n \<le> 100" by simp
  from aggregate_iterations [OF assms(1) this]
  show ?thesis using assms(2,3) by (simp add: aggregate_step)
qed

lemma iteration_Continue_world:
  "iteration P username page all W = Continue q all' W' \<Longrightarrow> W' = sent_world P username page W"
  by (auto simp: iteration_def sent_world_def Let_def split: sum.splits option.splits if_splits)

lemma iterations_world:
  "iterations P username n page all W = Some (page', all', W') \<Longrightarrow>
   length (fetched W') = length (fetched W) + n \<and> files W' = files W"
proof (induction n arbitrary: page all W)
  case 0
  then show ?case by simp
next
  case (Suc n)
  from Suc.prems obtain q all1 W1 where
    step: "iteration P username page all W = Continue q all1 W1"
    and rest: "iterations P username n q all1 W1 = Some (page', all', W')"
    by (auto split: step.splits)
  from iteration_Continue_world [OF step] have "length (fetched W1) = length (fetched W) + 1"
    and "files W1 = files W"
    by (simp_all add: sent_world_def)
  with Suc.IH [OF rest] show ?case by simp
qed

lemma parseNextFromLink_cases:
  obtains "parseNextFromLink P link = Inr None"
  | n where "parseNextFromLink P link = Inr (Some n)" "truthy n" "isFinite n"
proof (cases link)
  case None
  then show ?thesis using that(1) by (simp add: parseNextFromLink_def)
next
  case (Some l)
  obtain r where r: "next_entries P (split_on CHR '','' l) = Inr r"
    using next_entries_total by blast
  show ?thesis
  proof (cases r)
    case None
    with r Some show ?thesis using that(1) by (simp add: parseNextFromLink_entries)
  next
    case (Some n)
    with r next_entries_Some obtain p where "next_candidate P p = Some n" by blast
    from next_candidate_truthy [OF this] r Some \<open>link = Some l\<close> show ?thesis
      using that(2) by (simp add: parseNextFromLink_entries)
  qed
qed

lemma next_pointer_eq:
  "next_pointer P r = (case parseNextFromLink P (res_link r) of Inr n \<Rightarrow> n | Inl e \<Rightarrow> None)"
  by (rule parseNextFromLink_cases [of P "res_link r"]) (simp_all add: next_pointer_def)

lemma iteration_success:
  assumes "fst (fetch P (remote W) (page_url P username page) (request_headers P)) = Inr r"
    and "res_ok r" and "res_json r = Inr chunk"
  shows "iteration P username page all W =
     (case next_pointer P r of
        Some nextPage \<Rightarrow> Continue nextPage (push_chunk all chunk) (sent_world P username page W)
      | None \<Rightarrow> Exit (Done (push_chunk all chunk) (sent_world P username page W)))"
  by (rule parseNextFromLink_cases [of P "res_link r"])
     (simp_all add: iteration_def Let_def assms next_pointer_def sent_world_def)

lemma iteration_failure:
  assumes "fst (fetch P (remote W) (page_url P username page) (request_headers P)) = Inr r"
    and "\<not> res_ok r" and "body_status (res_status r)"
  shows "iteration P username page all W =
     Exit (Returned
       \<lparr>http_status = res_status r,
        http_body = JObj [(''error'', JStr (''GitHub API error (''
          @ Number_toString P (JFinite (of_nat (res_status r))) @ ''): '' @ res_text r))]\<rparr>
       (sent_world P username page W))"
  by (simp add: iteration_def Let_def assms sent_world_def NextResponse_json_def)

lemma iteration_refused:
  assumes "fst (fetch P (remote W) (page_url P username page) (request_headers P)) = Inr r"
    and "\<not> res_ok r" and "\<not> body_status (res_status r)"
  shows "iteration P username page all W =
     Exit (Thrown (Response_error P (res_status r)) (sent_world P username page W))"
  by (simp add: iteration_def Let_def assms sent_world_def NextResponse_json_def)

lemma POST_Thrown:
  "aggregate P username 0 (JFinite 1) [] W = Thrown e W' \<Longrightarrow>
   POST P (Inr (username, fmt)) W = (catch_response e, W')"
  by (simp add: POST_def)

lemma persist_no_truncated:
  "get_prop (http_body (fst (persist P fmt all W))) ''truncated'' = JUndefined"
  by (auto simp: persist_def catch_response_def get_prop_def split: sum.splits option.splits prod.splits)

lemma persist_files_on_error:
  "http_status (fst (persist P fmt all W)) \<noteq> 200 \<Longrightarrow> snd (persist P fmt all W) = W"
  by (auto simp: persist_def catch_response_def split: sum.splits option.splits prod.splits)

lemma POST_Done:
  "aggregate P username 0 (JFinite 1) [] W = Done all W' \<Longrightarrow>
   POST P (Inr (username, fmt)) W = persist P fmt all W'"
  by (simp add: POST_def)

lemma POST_Returned:
  "aggregate P username 0 (JFinite 1) [] W = Returned resp W' \<Longrightarrow>
   POST P (Inr (username, fmt)) W = (resp, W')"
  by (simp add: POST_def)

lemma iteration_Exit_files:
  "iteration P username page all W = Exit x \<Longrightarrow> files (exit_world x) = files W"
  by (auto simp: iteration_def exit_world_def Let_def NextResponse_json_def
           split: sum.splits option.splits if_splits)

lemma aggregate_files: "files (exit_world (aggregate P username i page all W)) = files W"
proof (induction P username i page all W rule: aggregate.induct)
  case (1 P username i page all W)
  show ?case
  proof (cases "i < 100")
    case False
    then show ?thesis by (subst aggregate.simps) (simp add: exit_world_def)
  next
    case True
    show ?thesis
    proof (cases "iteration P username page all W")
      case (Continue q all' W')
      from iteration_Continue_world [OF Continue] have "files W' = files W"
        by (simp add: sent_world_def)
      with "1.IH" [OF True Continue] True Continue show ?thesis
        by (simp add: aggregate_step)
    next
      case (Exit x)
      with True iteration_Exit_files [OF Exit] show ?thesis
        by (simp add: aggregate_step)
    qed
  qed
qed

lemma POST_writes_only_after_Done:
  assumes "files (snd (POST P parsed W)) \<noteq> files W"
  shows "\<exists>username fmt all W'. parsed = Inr (username, fmt)
           \<and> aggregate P username 0 (JFinite 1) [] W = Done all W'"
proof (cases parsed)
  case (Inl e)
  with assms show ?thesis by (simp add: POST_def)
next
  case (Inr req)
  obtain username fmt where req: "req = (username, fmt)" by (cases req)
  show ?thesis
  proof (cases "aggregate P username 0 (JFinite 1) [] W")
    case (Done all W')
    with Inr req show ?thesis by simp
  next
    case (Returned resp W')
    with aggregate_files [of P username 0 "JFinite 1" "[]" W] assms Inr req show ?thesis
      by (simp add: POST_def exit_world_def)
  next
    case (Thrown e W')
    with aggregate_files [of P username 0 "JFinite 1" "[]" W] assms Inr req show ?thesis
      by (simp add: POST_def exit_world_def)
  qed
qed

lemma push_chunk_items: "res_json r = Inr chunk \<Longrightarrow> push_chunk all chunk = all @ page_items r"
  by (auto simp: push_chunk_def page_items_def split: jsval.splits)

lemma push_chunk_nothing: "no_items chunk \<Longrightarrow> push_chunk all chunk = all"
  by (auto simp: push_chunk_def no_items_def split: jsval.splits)

lemma persist_success:
  "artifact P fmt all = Inr (destPath, content) \<Longrightarrow> writeFile_fails P destPath = None \<Longrightarrow>
   persist P fmt all W =
     (\<lparr>http_status = 200,
       http_body = JObj
         [(''ok'', JBool True),
          (''count'', JNum (JFinite (of_nat (length all)))),
          (''path'', JStr destPath),
          (''format'', JStr (format_name fmt))]\<rparr>,
      W\<lparr>files := (files W)(destPath \<mapsto> content)\<rparr>)"
  by (simp add: persist_def)

lemma serves_aggregate:
  "serves P username page (remote W) rs \<Longrightarrow> i + length rs \<le> 100 \<Longrightarrow>
   \<exists>W'. aggregate P username i page all W = Done (all @ concat (map page_items rs)) W'
        \<and> length (fetched W') = length (fetched W) + length rs
        \<and> files W' = files W"
proof (induction rs arbitrary: i page all W)
  case Nil
  then show ?case by simp
next
  case (Cons r rs)
  let ?sent = "fetch P (remote W) (page_url P username page) (request_headers P)"
  let ?W1 = "sent_world P username page W"
  from Cons.prems(1) have got: "fst ?sent = Inr r" and ok: "res_ok r"
    and json: "\<not> isl (res_json r)"
    and nxt: "case next_pointer P r of
                None \<Rightarrow> rs = []
              | Some nextPage \<Rightarrow> rs \<noteq> [] \<and> serves P username nextPage (snd ?sent) rs"
    by (simp_all add: Let_def)
  from json obtain chunk where chunk: "res_json r = Inr chunk"
    by (cases "res_json r") auto
  from Cons.prems(2) have i: "i < 100" by simp
  note step = iteration_success [OF got ok chunk, of all]
  have W1: "length (fetched ?W1) = length (fetched W) + 1" "files ?W1 = files W"
    "remote ?W1 = snd ?sent"
    by (simp_all add: sent_world_def)
  show ?case
  proof (cases "next_pointer P r")
    case None
    with nxt have "rs = []" by simp
    with None step i W1 show ?thesis
      by (simp add: aggregate_step push_chunk_items [OF chunk])
  next
    case (Some q)
    with nxt have "serves P username q (remote ?W1) rs" by (simp add: W1)
    moreover from Cons.prems(2) have "(i + 1) + length rs \<le> 100" by simp
    ultimately obtain W' where
      "aggregate P username (i + 1) q (all @ page_items r) ?W1
         = Done ((all @ page_items r) @ concat (map page_items rs)) W'"
      and "length (fetched W') = length (fetched ?W1) + length rs" and "files W' = files ?W1"
      using Cons.IH [of q ?W1 "i + 1" "all @ page_items r"] by blast
    with Some step i W1 show ?thesis
      by (simp add: aggregate_step push_chunk_items [OF chunk])
  qed
qed

text \<open>
  Claim C2, as amended. When the remote source answers the successive requests with at
  most 100 responses, each a success with a JSON body, each but the last with a \<open>next\<close>
  pointer and the last with none, the loop ends with exactly the concatenation of the
  pages' items, as received and in page order, after one request per page. The route then
  writes the artifact and reports the number of items; the report has the fields \<open>ok\<close>,
  \<open>count\<close>, \<open>path\<close> and \<open>format\<close>.
\<close>

theorem finite_chain_concatenated:
  assumes "serves P username (JFinite 1) (remote W) rs" and "length rs \<le> 100"
  shows "\<exists>W'. aggregate P username 0 (JFinite 1) [] W = Done (concat (map page_items rs)) W'
      \<and> length (fetched W') = length (fetched W) + length rs
      \<and> files W' = files W
      \<and> POST P (Inr (username, fmt)) W = persist P fmt (concat (map page_items rs)) W'
      \<and> (\<forall>destPath content.
            artifact P fmt (concat (map page_items rs)) = Inr (destPath, content)
            \<and> writeFile_fails P destPath = None \<longrightarrow>
            persist P fmt (concat (map page_items rs)) W' =
              (\<lparr>http_status = 200,
                http_body = JObj
                  [(''ok'', JBool True),
                   (''count'', JNum (JFinite (of_nat (length (concat (map page_items rs)))))),
                   (''path'', JStr destPath),
                   (''format'', JStr (format_name fmt))]\<rparr>,
               W'\<lparr>files := (files W')(destPath \<mapsto> content)\<rparr>))"
proof -
  from assms(2) have "0 + length rs \<le> 100" by simp
  from serves_aggregate [OF assms(1) this, of "[]"] obtain W' where
    W': "aggregate P username 0 (JFinite 1) [] W = Done (concat (map page_items rs)) W'"
    "length (fetched W') = length (fetched W) + length rs" "files W' = files W"
    by auto
  from POST_Done [OF W'(1)] W' show ?thesis
    by (auto simp: persist_success)
qed

text \<open>
  Claim C1, as amended. When the chain of \<open>next\<close> pointers never runs out, the loop sends
  exactly 100 requests and then stops with what it has accumulated. The route goes on as
  after any completed loop: it writes the artifact and reports \<open>ok\<close>, \<open>count\<close>, \<open>path\<close>
  and \<open>format\<close>; its response has no field \<open>truncated\<close>.
\<close>

theorem cap_stops_after_100_fetches:
  assumes "endless_chain P username W"
  shows "\<exists>page all W'. iterations P username 100 (JFinite 1) [] W = Some (page, all, W')
      \<and> aggregate P username 0 (JFinite 1) [] W = Done all W'
      \<and> length (fetched W') = length (fetched W) + 100
      \<and> files W' = files W
      \<and> POST P (Inr (username, fmt)) W = persist P fmt all W'
      \<and> get_prop (http_body (fst (persist P fmt all W'))) ''truncated'' = JUndefined"
proof -
  from assms obtain page all W' where
    run: "iterations P username 100 (JFinite 1) [] W = Some (page, all, W')"
    unfolding endless_chain_def by (metis option.exhaust prod_cases3)
  from aggregate_iterations [OF run, of 0]
  have agg: "aggregate P username 0 (JFinite 1) [] W = Done all W'"
    by (simp add: aggregate_cap)
  from iterations_world [OF run] POST_Done [OF agg] run agg persist_no_truncated
  show ?thesis by auto
qed

text \<open>
  A page answered with a status outside 200 to 299, after \<open>n\<close> pages that went on (\<open>n\<close> below
  100). When the status is one that a response with a body can have, the route answers
  with that status and with the single field \<open>error\<close>, which holds the status and the body
  of that page as received; the items of the earlier pages are in no field of the answer,
  and the files are as they were before the request. In every run of the route, the files
  change only when the loop has come to its end without a failure.
\<close>

lemma failed_page_carried:
  assumes "iterations P username n (JFinite 1) [] W = Some (page, all, W')" and "n < 100"
    and "fst (fetch P (remote W') (page_url P username page) (request_headers P)) = Inr r"
    and "\<not> res_ok r" and "body_status (res_status r)"
  shows "POST P (Inr (username, fmt)) W =
      (\<lparr>http_status = res_status r,
        http_body = JObj [(''error'', JStr (''GitHub API error (''
          @ Number_toString P (JFinite (of_nat (res_status r))) @ ''): '' @ res_text r))]\<rparr>,
       sent_world P username page W')
     \<and> files (snd (POST P (Inr (username, fmt)) W)) = files W
     \<and> length (fetched (snd (POST P (Inr (username, fmt)) W))) = length (fetched W) + n + 1
     \<and> (files (snd (POST P parsed W0)) \<noteq> files W0 \<longrightarrow>
          (\<exists>username0 fmt0 all0 W1. parsed = Inr (username0, fmt0)
             \<and> aggregate P username0 0 (JFinite 1) [] W0 = Done all0 W1))"
proof -
  from assms(2) have "0 + n < 100" by simp
  from aggregate_exit [OF assms(1) this iteration_failure [OF assms(3,4,5)]]
  have "POST P (Inr (username, fmt)) W =
      (\<lparr>http_status = res_status r,
        http_body = JObj [(''error'', JStr (''GitHub API error (''
          @ Number_toString P (JFinite (of_nat (res_status r))) @ ''): '' @ res_text r))]\<rparr>,
       sent_world P username page W')"
    by (rule POST_Returned)
  with iterations_world [OF assms(1)] POST_writes_only_after_Done [of P parsed W0] show ?thesis
    by (simp add: sent_world_def)
qed

text \<open>
  When the status is one that the constructor of the response refuses (304, or a status
  below 200 or above 599), the exception reaches the outer \<open>catch\<close>: the route answers
  with the status 400 and with the message of the constructor's error, and neither the
  status nor the body of the page is in the answer. The items of the earlier pages are in
  no field of the answer either, and the files are as they were before the request.
\<close>

lemma failed_page_refused:
  assumes "iterations P username n (JFinite 1) [] W = Some (page, all, W')" and "n < 100"
    and "fst (fetch P (remote W') (page_url P username page) (request_headers P)) = Inr r"
    and "\<not> res_ok r" and "\<not> body_status (res_status r)"
  shows "POST P (Inr (username, fmt)) W =
      (\<lparr>http_status = 400,
        http_body = JObj [(''error'', JStr (catch_message (Response_error P (res_status r))))]\<rparr>,
       sent_world P username page W')
     \<and> files (snd (POST P (Inr (username, fmt)) W)) = files W
     \<and> length (fetched (snd (POST P (Inr (username, fmt)) W))) = length (fetched W) + n + 1"
proof -
  from assms(2) have "0 + n < 100" by simp
  from aggregate_exit [OF assms(1) this iteration_refused [OF assms(3,4,5)]]
  have "POST P (Inr (username, fmt)) W =
      (catch_response (Response_error P (res_status r)), sent_world P username page W')"
    by (rule POST_Thrown)
  with iterations_world [OF assms(1)] show ?thesis
    by (simp add: sent_world_def catch_response_def)
qed

lemma refused_statuses:
  "(\<not> res_ok r \<and> \<not> body_status (res_status r))
     = (res_status r < 200 \<or> res_status r = 304 \<or> 599 < res_status r)"
  by (auto simp: res_ok_def body_status_def)

text \<open>
  Claim C10. A page with a success status whose JSON body is not an array, or is the
  empty array, adds nothing to the accumulator and raises nothing; the Link header of the
  response alone decides whether the loop goes on to the next page or ends. When it is the
  first page and has no \<open>next\<close> pointer, the route writes the artifact of no items, and
  for the JSON format reports \<open>ok: true\<close> with the count 0.
\<close>

theorem page_without_items:
  assumes "fst (fetch P (remote W) (page_url P username page) (request_headers P)) = Inr r"
    and "res_ok r" and "res_json r = Inr chunk"
    and "no_items chunk"
    and "i < 100"
  shows "iteration P username page all W =
      (case next_pointer P r of
         Some nextPage \<Rightarrow> Continue nextPage all (sent_world P username page W)
       | None \<Rightarrow> Exit (Done all (sent_world P username page W)))
     \<and> aggregate P username i page all W =
      (case next_pointer P r of
         Some nextPage \<Rightarrow> aggregate P username (i + 1) nextPage all (sent_world P username page W)
       | None \<Rightarrow> Done all (sent_world P username page W))
     \<and> (i = 0 \<and> page = JFinite 1 \<and> all = [] \<and> next_pointer P r = None \<longrightarrow>
          POST P (Inr (username, fmt)) W = persist P fmt [] (sent_world P username page W))
     \<and> (writeFile_fails P (dest_path P ''stars.json'') = None \<longrightarrow>
          fst (persist P Json [] (sent_world P username page W)) =
            \<lparr>http_status = 200,
             http_body = JObj
               [(''ok'', JBool True), (''count'', JNum (JFinite 0)),
                (''path'', JStr (dest_path P ''stars.json'')), (''format'', JStr ''json'')]\<rparr>)"
proof -
  note step = iteration_success [OF assms(1-3), of all, unfolded push_chunk_nothing [OF assms(4)]]
  have agg: "aggregate P username i page all W =
      (case next_pointer P r of
         Some nextPage \<Rightarrow> aggregate P username (i + 1) nextPage all (sent_world P username page W)
       | None \<Rightarrow> Done all (sent_world P username page W))"
    using assms(5) by (simp add: aggregate_step step split: option.splits)
  have "POST P (Inr (username, fmt)) W = persist P fmt [] (sent_world P username page W)"
    if "i = 0 \<and> page = JFinite 1 \<and> all = [] \<and> next_pointer P r = None"
    using that agg by (intro POST_Done) simp
  moreover have "fst (persist P Json [] (sent_world P username page W)) =
            \<lparr>http_status = 200,
             http_body = JObj
               [(''ok'', JBool True), (''count'', JNum (JFinite 0)),
                (''path'', JStr (dest_path P ''stars.json'')), (''format'', JStr ''json'')]\<rparr>"
    if "writeFile_fails P (dest_path P ''stars.json'') = None"
    using that by (simp add: persist_def artifact_def format_name_def)
  ultimately show ?thesis using step agg by blast
qed

section \<open>The example remote sources: runs\<close>

lemma example_fields:
  "fetch (example_platform f) = f"
  "new_URL (example_platform f) = example_new_URL"
  "Number_of (example_platform f) = example_Number"
  "Number_toString (example_platform f) = example_toString"
  "JSON_stringify (example_platform f) = example_stringify"
  "writeFile_fails (example_platform f) = (\<lambda>file. None)"
  "dest_path (example_platform f) = (\<lambda>name. ''/srv/'' @ name)"
  "Response_error (example_platform f) = example_Response_error"
  by (simp_all add: example_platform_def)

lemma recorded_pair_cong:
  assumes "new_URL P = new_URL Q" and "Number_of P = Number_of Q"
  shows "recorded_pair P p = recorded_pair Q p"
  unfolding recorded_pair_def page_number_def assms ..

lemma next_entries_cong:
  assumes "new_URL P = new_URL Q" and "Number_of P = Number_of Q"
  shows "next_entries P ps = next_entries Q ps"
proof (induction ps)
  case Nil
  show ?case by simp
next
  case (Cons p ps)
  have "next_candidate P p = next_candidate Q p"
    unfolding next_candidate_def recorded_pair_cong [OF assms] ..
  with Cons show ?case
    by (simp only: next_entries_Cons)
qed

lemma parseNextFromLink_cong:
  assumes "new_URL P = new_URL Q" and "Number_of P = Number_of Q"
  shows "parseNextFromLink P link = parseNextFromLink Q link"
  by (simp add: parseNextFromLink_def next_entries_cong [OF assms] split: option.splits)

lemma example_parseNextFromLink:
  "parseNextFromLink (example_platform f) link = parseNextFromLink offline link"
  by (rule parseNextFromLink_cong) (simp_all add: offline_def example_fields)

lemma next_links_parsed:
  "list_all (\<lambda>m. parseNextFromLink offline (Some (next_link m)) = Inr (Some (JFinite (of_nat m))))
     [2..<102]"
  by code_simp

lemma next_link_parsed:
  assumes "2 \<le> m" and "m < 102"
  shows "parseNextFromLink (example_platform f) (Some (next_link m))
     = Inr (Some (JFinite (of_nat m)))"
proof -
  from assms have "m \<in> {2..<102}" by simp
  then have "m \<in> set [2..<102]" by (simp only: set_upt)
  with next_links_parsed [unfolded list_all_iff]
  have "parseNextFromLink offline (Some (next_link m)) = Inr (Some (JFinite (of_nat m)))"
    by blast
  then show ?thesis by (simp only: example_parseNextFromLink)
qed

lemma next_pointer_link:
  "2 \<le> m \<Longrightarrow> m < 102 \<Longrightarrow>
   next_pointer (example_platform f) (page_response items (Some (next_link m)))
     = Some (JFinite (of_nat m))"
  by (simp add: next_pointer_def page_response_def next_link_parsed)

lemma next_pointer_no_link: "res_link r = None \<Longrightarrow> next_pointer P r = None"
  by (simp add: next_pointer_def parseNextFromLink_def)

lemma page_response_fields:
  "res_ok (page_response items link)" "res_json (page_response items link) = Inr (JArr items)"
  "res_link (page_response items link) = link"
  "page_items (page_response items link) = items"
  by (simp_all add: page_response_def res_ok_def page_items_def)

lemma counting_iteration:
  assumes "remote W = k" and "k < 100" and "k + 1 < N"
  shows "iteration (example_platform (counting_remote N)) username page all W
     = Continue (JFinite (of_nat (k + 2))) (all @ [repo k])
         (sent_world (example_platform (counting_remote N)) username page W)"
proof -
  let ?P = "example_platform (counting_remote N)"
  have got: "fst (fetch ?P (remote W) (page_url ?P username page) (request_headers ?P))
     = Inr (counting_response N k)"
    using assms(1) by (simp add: example_fields counting_remote_def)
  have "next_pointer ?P (counting_response N k) = Some (JFinite (of_nat (k + 2)))"
    using assms(2,3) by (simp add: counting_response_def next_pointer_link)
  with iteration_success [OF got, of "JArr [repo k]" all] show ?thesis
    by (simp add: counting_response_def page_response_fields push_chunk_def)
qed

lemma counting_sent_world:
  "remote W = k \<Longrightarrow>
   remote (sent_world (example_platform (counting_remote N)) username page W) = k + 1"
  by (simp add: sent_world_def example_fields counting_remote_def)

lemma counting_iterations:
  "remote W = k \<Longrightarrow> k + n \<le> 100 \<Longrightarrow> k + n < N \<Longrightarrow>
   \<exists>page' W'. iterations (example_platform (counting_remote N)) username n page all W
                 = Some (page', all @ map repo [k..<k + n], W')
              \<and> remote W' = k + n"
proof (induction n arbitrary: k page all W)
  case 0
  then show ?case by simp
next
  case (Suc n)
  let ?P = "example_platform (counting_remote N)"
  let ?W1 = "sent_world ?P username page W"
  from Suc.prems have k: "k < 100" "k + 1 < N" by simp_all
  note step = counting_iteration [OF Suc.prems(1) k, of username page all]
  from Suc.prems have "remote ?W1 = k + 1" "(k + 1) + n \<le> 100" "(k + 1) + n < N"
    by (simp_all add: counting_sent_world)
  from Suc.IH [OF this, of "JFinite (of_nat (k + 2))" "all @ [repo k]"]
  obtain page' W' where
    "iterations ?P username n (JFinite (of_nat (k + 2))) (all @ [repo k]) ?W1
       = Some (page', (all @ [repo k]) @ map repo [k + 1..<k + 1 + n], W')"
    and "remote W' = k + 1 + n"
    by blast
  moreover have "[k..<k + Suc n] = k # [k + 1..<k + 1 + n]"
    by (simp add: upt_conv_Cons)
  ultimately show ?case using step by simp
qed

lemma counting_serves:
  "k < N \<Longrightarrow> N \<le> 101 \<Longrightarrow>
   serves (example_platform (counting_remote N)) username page k (map (counting_response N) [k..<N])"
proof (induction "N - k" arbitrary: k page)
  case 0
  then show ?case by simp
next
  case (Suc d)
  let ?P = "example_platform (counting_remote N)"
  have up: "[k..<N] = k # [k + 1..<N]"
    using Suc.prems(1) by (simp add: upt_conv_Cons)
  show ?case
  proof (cases "k + 1 < N")
    case True
    with Suc.prems(2) have "k < 100" by simp
    with True have np: "next_pointer ?P (counting_response N k) = Some (JFinite (of_nat (k + 2)))"
      by (simp add: counting_response_def next_pointer_link)
    from Suc.hyps(2) have "d = N - (k + 1)" by simp
    from Suc.hyps(1) [OF this True Suc.prems(2)]
    have "serves ?P username (JFinite (of_nat (k + 2))) (k + 1)
            (map (counting_response N) [k + 1..<N])" .
    with True np show ?thesis
      unfolding up
      by (simp add: example_fields counting_remote_def counting_response_def [of N k]
            page_response_fields)
  next
    case False
    with Suc.prems(1) have "[k + 1..<N] = []" by simp
    moreover from False have "next_pointer ?P (counting_response N k) = None"
      by (simp add: counting_response_def next_pointer_no_link page_response_fields)
    ultimately show ?thesis
      unfolding up
      by (simp add: example_fields counting_remote_def counting_response_def [of N k]
            page_response_fields)
  qed
qed

section \<open>The page cap on the cyclic source\<close>

lemma persist_fetched: "fetched (snd (persist P fmt all W)) = fetched W"
  by (auto simp: persist_def split: sum.splits option.splits prod.splits)

lemma cyclic_iteration:
  "iteration (example_platform cyclic_remote) username page all W
     = Continue (JFinite 2) (all @ [repo 1])
         (sent_world (example_platform cyclic_remote) username page W)"
proof -
  let ?P = "example_platform cyclic_remote"
  have got: "fst (fetch ?P (remote W) (page_url ?P username page) (request_headers ?P))
     = Inr (page_response [repo 1] (Some (next_link 2)))"
    by (simp add: example_fields cyclic_remote_def)
  have "next_pointer ?P (page_response [repo 1] (Some (next_link 2))) = Some (JFinite (of_nat 2))"
    by (rule next_pointer_link) simp_all
  with iteration_success [OF got, of "JArr [repo 1]" all] show ?thesis
    by (simp add: page_response_fields push_chunk_def)
qed

lemma cyclic_iterations:
  "\<exists>page' W'. iterations (example_platform cyclic_remote) username n page all W
                 = Some (page', all @ replicate n (repo 1), W')"
proof (induction n arbitrary: page all W)
  case 0
  then show ?case by simp
next
  case (Suc n)
  from Suc.IH [of "JFinite 2" "all @ [repo 1]"
                  "sent_world (example_platform cyclic_remote) username page W"]
  show ?case
    by (simp add: cyclic_iteration replicate_app_Cons_same)
qed

lemma cyclic_endless: "endless_chain (example_platform cyclic_remote) username W"
  unfolding endless_chain_def using cyclic_iterations [of username _ "JFinite 1" "[]" W] by force

lemma json_artifact:
  "artifact (example_platform f) Json all = Inr (''/srv/stars.json'', example_stringify (JArr all))"
  by (simp add: artifact_def example_fields)

lemma example_persist_json:
  "persist (example_platform f) Json all W =
     (\<lparr>http_status = 200,
       http_body = JObj
         [(''ok'', JBool True), (''count'', JNum (JFinite (of_nat (length all)))),
          (''path'', JStr ''/srv/stars.json''), (''format'', JStr ''json'')]\<rparr>,
      W\<lparr>files := (files W)(''/srv/stars.json'' \<mapsto> example_stringify (JArr all))\<rparr>)"
  by (simp add: persist_success [OF json_artifact] example_fields format_name_def)

text \<open>The cyclic source: 100 requests, and a response without the field \<open>truncated\<close>.\<close>

theorem cap_stops_after_100_fetches_witness:
  "endless_chain (example_platform cyclic_remote) ''vercel'' (start ())
   \<and> length (fetched (snd (POST (example_platform cyclic_remote) (Inr (''vercel'', Json)) (start ()))))
       = 100
   \<and> get_prop (http_body (fst (POST (example_platform cyclic_remote) (Inr (''vercel'', Json))
        (start ())))) ''truncated'' = JUndefined"
proof -
  have a: "endless_chain (example_platform cyclic_remote) ''vercel'' (start ())"
    by (rule cyclic_endless)
  from cap_stops_after_100_fetches [OF a, of Json] a show ?thesis
    by (auto simp: persist_fetched start_def)
qed

text \<open>
  Claim C1 as stated fails: on the cyclic source the route reports a plain success with
  the count 100, and \<open>truncated\<close> is not \<open>true\<close> in its response.
\<close>

theorem truncation_not_reported_counterexample:
  "endless_chain (example_platform cyclic_remote) ''vercel'' (start ())
   \<and> fst (POST (example_platform cyclic_remote) (Inr (''vercel'', Json)) (start ())) =
       \<lparr>http_status = 200,
        http_body = JObj
          [(''ok'', JBool True), (''count'', JNum (JFinite 100)),
           (''path'', JStr ''/srv/stars.json''), (''format'', JStr ''json'')]\<rparr>
   \<and> get_prop (http_body (fst (POST (example_platform cyclic_remote) (Inr (''vercel'', Json))
        (start ())))) ''truncated'' \<noteq> JBool True"
proof -
  let ?P = "example_platform cyclic_remote"
  obtain page' W' where
    run: "iterations ?P ''vercel'' 100 (JFinite 1) [] (start ()) = Some (page', replicate 100 (repo 1), W')"
    using cyclic_iterations [of "''vercel''" 100 "JFinite 1" "[]" "start ()"] by auto
  from aggregate_iterations [OF run, of 0]
  have "aggregate ?P ''vercel'' 0 (JFinite 1) [] (start ()) = Done (replicate 100 (repo 1)) W'"
    by (simp add: aggregate_cap)
  from POST_Done [OF this, of Json]
  have "POST ?P (Inr (''vercel'', Json)) (start ()) = persist ?P Json (replicate 100 (repo 1)) W'" .
  then show ?thesis
    by (simp add: example_persist_json cyclic_endless get_prop_def)
qed

section \<open>The export route on the example sources\<close>

lemma counting_items:
  "concat (map page_items (map (counting_response N) ks)) = map repo ks"
  by (induction ks) (simp_all add: counting_response_def page_response_fields)

lemma single_iteration:
  "iteration (example_platform (single_remote body)) username page all W
     = Exit (Done (push_chunk all body)
               (sent_world (example_platform (single_remote body)) username page W))"
proof -
  let ?P = "example_platform (single_remote body)"
  have got: "fst (fetch ?P (remote W) (page_url ?P username page) (request_headers ?P))
     = Inr (single_response body)"
    by (simp add: example_fields single_remote_def)
  have "next_pointer ?P (single_response body) = None"
    by (rule next_pointer_no_link) (simp add: single_response_def)
  with iteration_success [OF got, of body all] show ?thesis
    by (simp add: single_response_def res_ok_def)
qed

lemma single_POST:
  "POST (example_platform (single_remote body)) (Inr (username, fmt)) W
     = persist (example_platform (single_remote body)) fmt (push_chunk [] body)
         (sent_world (example_platform (single_remote body)) username (JFinite 1) W)"
  by (rule POST_Done) (simp add: aggregate_step single_iteration)

text \<open>A source of three pages, exported as CSV: three rows after the header, in page order.\<close>

theorem finite_chain_concatenated_witness:
  "serves (example_platform (counting_remote 3)) ''vercel'' (JFinite 1) (remote (start 0))
     (map (counting_response 3) [0..<3])
   \<and> length (map (counting_response 3) [0..<3]) \<le> 100
   \<and> fst (POST (example_platform (counting_remote 3)) (Inr (''vercel'', Csv)) (start 0)) =
       \<lparr>http_status = 200,
        http_body = JObj
          [(''ok'', JBool True), (''count'', JNum (JFinite 3)),
           (''path'', JStr ''/srv/stars.csv''), (''format'', JStr ''csv'')]\<rparr>
   \<and> files (snd (POST (example_platform (counting_remote 3)) (Inr (''vercel'', Csv)) (start 0)))
         ''/srv/stars.csv''
       = Some (''id,full_name,html_url,description,stargazers_count,language,owner_login,owner_html_url''
               @ [CHR 0x0A] @ ''0,,,,,,,'' @ [CHR 0x0A] @ ''1,,,,,,,'' @ [CHR 0x0A]
               @ ''2,,,,,,,'' @ [CHR 0x0A])
   \<and> length (fetched (snd (POST (example_platform (counting_remote 3)) (Inr (''vercel'', Csv))
         (start 0)))) = 3"
proof -
  let ?P = "example_platform (counting_remote 3)"
  let ?rs = "map (counting_response 3) [0..<3]"
  let ?csv = "''id,full_name,html_url,description,stargazers_count,language,owner_login,owner_html_url''
               @ [CHR 0x0A] @ ''0,,,,,,,'' @ [CHR 0x0A] @ ''1,,,,,,,'' @ [CHR 0x0A]
               @ ''2,,,,,,,'' @ [CHR 0x0A]"
  have a: "serves ?P ''vercel'' (JFinite 1) (remote (start 0)) ?rs"
    using counting_serves [of 0 3 "''vercel''" "JFinite 1"] by (simp add: start_def)
  have b: "length ?rs \<le> 100" by simp
  have items: "concat (map page_items ?rs) = map repo [0..<3]"
    by (rule counting_items)
  have art: "artifact ?P Csv (map repo [0..<3]) = Inr (''/srv/stars.csv'', ?csv)"
    by code_simp
  have nofail: "writeFile_fails ?P ''/srv/stars.csv'' = None"
    by (simp add: example_fields)
  from finite_chain_concatenated [OF a b, of Csv] obtain W' where
    len: "length (fetched W') = length (fetched (start (0::nat))) + length ?rs"
    and post: "POST ?P (Inr (''vercel'', Csv)) (start 0)
                 = persist ?P Csv (concat (map page_items ?rs)) W'"
    and sink: "\<forall>destPath content.
            artifact ?P Csv (concat (map page_items ?rs)) = Inr (destPath, content)
            \<and> writeFile_fails ?P destPath = None \<longrightarrow>
            persist ?P Csv (concat (map page_items ?rs)) W' =
              (\<lparr>http_status = 200,
                http_body = JObj
                  [(''ok'', JBool True),
                   (''count'', JNum (JFinite (of_nat (length (concat (map page_items ?rs)))))),
                   (''path'', JStr destPath),
                   (''format'', JStr (format_name Csv))]\<rparr>,
               W'\<lparr>files := (files W')(destPath \<mapsto> content)\<rparr>)"
    by blast
  from art nofail have "artifact ?P Csv (concat (map page_items ?rs)) = Inr (''/srv/stars.csv'', ?csv)
      \<and> writeFile_fails ?P ''/srv/stars.csv'' = None"
    by (simp only: items simp_thms)
  note pers = sink [rule_format, OF this, unfolded items]
  note post' = post [unfolded items]
  from pers post' len a b show ?thesis
    by (simp add: format_name_def start_def)
qed

text \<open>
  Claim C2 as stated fails. On the source of 101 pages, a finite chain whose last response
  has no \<open>next\<close> pointer, the route reports 100 items where the pages hold 101, and its
  response has no field \<open>truncated\<close> with the value \<open>false\<close>. The items it exports are
  the records as received, not their normalized form.
\<close>

theorem finite_chain_counterexample:
  "serves (example_platform (counting_remote 101)) ''vercel'' (JFinite 1) (remote (start 0))
     (map (counting_response 101) [0..<101])
   \<and> length (concat (map page_items (map (counting_response 101) [0..<101]))) = 101
   \<and> fst (POST (example_platform (counting_remote 101)) (Inr (''vercel'', Json)) (start 0)) =
       \<lparr>http_status = 200,
        http_body = JObj
          [(''ok'', JBool True), (''count'', JNum (JFinite 100)),
           (''path'', JStr ''/srv/stars.json''), (''format'', JStr ''json'')]\<rparr>
   \<and> get_prop (http_body (fst (POST (example_platform (counting_remote 101))
         (Inr (''vercel'', Json)) (start 0)))) ''truncated'' \<noteq> JBool False
   \<and> files (snd (POST (example_platform (single_remote (JArr [JObj [(''stargazers_count'',
         JNum (JFinite 42)), (''owner'', JObj [(''login'', JStr ''a'')])]])))
         (Inr (''vercel'', Json)) (start ()))) ''/srv/stars.json''
       = Some ''[{\"stargazers_count\":42,\"owner\":{\"login\":\"a\"}}]''
   \<and> normalize offline
         (JObj [(''stargazers_count'', JNum (JFinite 42)), (''owner'', JObj [(''login'', JStr ''a'')])])
       \<noteq> Inr (JObj [(''stargazers_count'', JNum (JFinite 42)),
                     (''owner'', JObj [(''login'', JStr ''a'')])])"
proof -
  let ?P = "example_platform (counting_remote 101)"
  have a: "serves ?P ''vercel'' (JFinite 1) (remote (start 0)) (map (counting_response 101) [0..<101])"
    using counting_serves [of 0 101 "''vercel''" "JFinite 1"] by (simp add: start_def)
  have b: "length (concat (map page_items (map (counting_response 101) [0..<101]))) = 101"
    by (simp only: counting_items length_map length_upt)
  have "remote (start 0) = (0::nat)" by (simp add: start_def)
  from counting_iterations [OF this, of 100 101 "''vercel''" "JFinite 1" "[]"]
  obtain page' W' where
    run: "iterations ?P ''vercel'' 100 (JFinite 1) [] (start 0) = Some (page', map repo [0..<100], W')"
    by auto
  from aggregate_iterations [OF run, of 0]
  have "aggregate ?P ''vercel'' 0 (JFinite 1) [] (start 0) = Done (map repo [0..<100]) W'"
    by (simp add: aggregate_cap)
  from POST_Done [OF this, of Json]
  have c: "POST ?P (Inr (''vercel'', Json)) (start 0) = persist ?P Json (map repo [0..<100]) W'" .
  have d: "example_stringify (JArr [JObj [(''stargazers_count'', JNum (JFinite 42)),
             (''owner'', JObj [(''login'', JStr ''a'')])]])
       = ''[{\"stargazers_count\":42,\"owner\":{\"login\":\"a\"}}]''"
    by code_simp
  have e: "normalize offline
         (JObj [(''stargazers_count'', JNum (JFinite 42)), (''owner'', JObj [(''login'', JStr ''a'')])])
       \<noteq> Inr (JObj [(''stargazers_count'', JNum (JFinite 42)),
                     (''owner'', JObj [(''login'', JStr ''a'')])])"
    by (simp add: normalize_def nullish_def get_prop_def)
  from a b e show ?thesis
    unfolding c single_POST
    by (simp add: example_persist_json get_prop_def push_chunk_def d del: example_stringify.simps)
qed

text \<open>
  Claim C3. A failed page is to end the export with a failure that carries the status and
  the raw body of that page. The route hands the status of the page to the constructor
  of its own response, which refuses 304: for a first page answered with the status 304
  and an empty body, the route answers with the status 400 and with the message of the
  constructor's error, not with the status 304 and the body of the page. No file is
  written.
\<close>

theorem refused_status_answers_400:
  "\<not> res_ok (status_response 304 '''')
   \<and> POST (example_platform (status_remote 304 '''')) (Inr (''vercel'', Json)) (start ()) =
       (\<lparr>http_status = 400,
         http_body = JObj [(''error'',
           JStr ''Response constructor: Invalid response status code 304'')]\<rparr>,
        \<lparr>remote = (), files = Map.empty,
         fetched = [''https://api.github.com/users/vercel/starred?page=1&per_page=100'']\<rparr>)"
proof -
  let ?P = "example_platform (status_remote 304 '''')"
  have url: "page_url ?P ''vercel'' (JFinite 1)
        = ''https://api.github.com/users/vercel/starred?page=1&per_page=100''"
    by code_simp
  have got: "fst (fetch ?P (remote (start ())) (page_url ?P ''vercel'' (JFinite 1))
               (request_headers ?P)) = Inr (status_response 304 '''')"
    by (simp add: example_fields status_remote_def)
  have bad: "\<not> res_ok (status_response 304 '''')"
    by (simp add: res_ok_def status_response_def)
  have ref: "\<not> body_status (res_status (status_response 304 ''''))"
    by (simp add: body_status_def status_response_def)
  have msg: "catch_message (example_Response_error 304)
        = ''Response constructor: Invalid response status code 304''"
    by code_simp
  from iteration_refused [OF got bad ref, of "[]"]
  have "aggregate ?P ''vercel'' 0 (JFinite 1) [] (start ())
      = Thrown (Response_error ?P (res_status (status_response 304 '''')))
          (sent_world ?P ''vercel'' (JFinite 1) (start ()))"
    by (simp add: aggregate_step)
  from POST_Thrown [OF this, of Json] bad show ?thesis
    by (simp add: catch_response_def status_response_def example_fields msg url
          sent_world_def start_def status_remote_def)
qed

text \<open>Page 3 of 5 answers with the status 403, which is carried: no file is written.\<close>

lemma failed_page_example:
  "iterations (example_platform failing_remote) ''vercel'' 2 (JFinite 1) [] (start 0)
     = Some (JFinite 3, [repo 0, repo 1],
         \<lparr>remote = 2, files = Map.empty,
          fetched = [''https://api.github.com/users/vercel/starred?page=1&per_page=100'',
                     ''https://api.github.com/users/vercel/starred?page=2&per_page=100'']\<rparr>)
   \<and> (2::nat) < 100
   \<and> fst (fetch (example_platform failing_remote) 2
            (page_url (example_platform failing_remote) ''vercel'' (JFinite 3))
            (request_headers (example_platform failing_remote))) = Inr failing_response
   \<and> \<not> res_ok failing_response
   \<and> POST (example_platform failing_remote) (Inr (''vercel'', Json)) (start 0) =
       (\<lparr>http_status = 403,
         http_body = JObj [(''error'', JStr ''GitHub API error (403): rate limit exceeded'')]\<rparr>,
        \<lparr>remote = 3, files = Map.empty,
         fetched = [''https://api.github.com/users/vercel/starred?page=1&per_page=100'',
                    ''https://api.github.com/users/vercel/starred?page=2&per_page=100'',
                    ''https://api.github.com/users/vercel/starred?page=3&per_page=100'']\<rparr>)"
proof -
  let ?P = "example_platform failing_remote"
  let ?W2 = "\<lparr>remote = 2::nat, files = Map.empty,
          fetched = [''https://api.github.com/users/vercel/starred?page=1&per_page=100'',
                     ''https://api.github.com/users/vercel/starred?page=2&per_page=100'']\<rparr>"
  have urls: "page_url ?P ''vercel'' (JFinite 1)
        = ''https://api.github.com/users/vercel/starred?page=1&per_page=100''"
     "page_url ?P ''vercel'' (JFinite 2)
        = ''https://api.github.com/users/vercel/starred?page=2&per_page=100''"
     "page_url ?P ''vercel'' (JFinite 3)
        = ''https://api.github.com/users/vercel/starred?page=3&per_page=100''"
    by code_simp+
  have step: "iteration ?P ''vercel'' page all W
     = Continue (JFinite (of_nat (k + 2))) (all @ [repo k]) (sent_world ?P ''vercel'' page W)"
    if "remote W = k" and "k < 2" for page all W k
  proof -
    have got: "fst (fetch ?P (remote W) (page_url ?P ''vercel'' page) (request_headers ?P))
       = Inr (counting_response 5 k)"
      using that by (simp add: example_fields failing_remote_def)
    have "next_pointer ?P (counting_response 5 k) = Some (JFinite (of_nat (k + 2)))"
      using that(2) by (simp add: counting_response_def next_pointer_link)
    with iteration_success [OF got, of "JArr [repo k]" all] show ?thesis
      by (simp add: counting_response_def page_response_fields push_chunk_def)
  qed
  have a: "iterations ?P ''vercel'' 2 (JFinite 1) [] (start 0) = Some (JFinite 3, [repo 0, repo 1], ?W2)"
    by (simp add: numeral_2_eq_2 step [of _ 0] step [of _ 1] sent_world_def example_fields
          failing_remote_def start_def urls)
  have b: "(2::nat) < 100" by simp
  have c: "fst (fetch ?P (remote ?W2) (page_url ?P ''vercel'' (JFinite 3)) (request_headers ?P))
      = Inr failing_response"
    by (simp add: example_fields failing_remote_def)
  have d: "\<not> res_ok failing_response"
    by (simp add: res_ok_def failing_response_def)
  have e: "example_toString (JFinite 403) = ''403''"
    by code_simp
  have f: "body_status (res_status failing_response)"
    by (simp add: body_status_def failing_response_def)
  from failed_page_carried [OF a b c d f, of Json] a b c d show ?thesis
    by (simp add: sent_world_def example_fields failing_remote_def failing_response_def urls e)
qed

text \<open>A first page whose body is an object: the export ends with \<open>ok: true\<close> and no items.\<close>

theorem page_without_items_witness:
  "fst (fetch (example_platform (single_remote (JObj [(''message'', JStr ''Not an array'')])))
         (remote (start ()))
         (page_url (example_platform (single_remote (JObj [(''message'', JStr ''Not an array'')])))
            ''vercel'' (JFinite 1))
         (request_headers (example_platform (single_remote (JObj [(''message'', JStr ''Not an array'')])))))
     = Inr (single_response (JObj [(''message'', JStr ''Not an array'')]))
   \<and> res_ok (single_response (JObj [(''message'', JStr ''Not an array'')]))
   \<and> res_json (single_response (JObj [(''message'', JStr ''Not an array'')]))
       = Inr (JObj [(''message'', JStr ''Not an array'')])
   \<and> no_items (JObj [(''message'', JStr ''Not an array'')])
   \<and> (0::nat) < 100
   \<and> fst (POST (example_platform (single_remote (JObj [(''message'', JStr ''Not an array'')])))
         (Inr (''vercel'', Json)) (start ())) =
       \<lparr>http_status = 200,
        http_body = JObj
          [(''ok'', JBool True), (''count'', JNum (JFinite 0)),
           (''path'', JStr ''/srv/stars.json''), (''format'', JStr ''json'')]\<rparr>"
proof -
  let ?body = "JObj [(''message'', JStr ''Not an array'')]"
  let ?P = "example_platform (single_remote ?body)"
  have a: "fst (fetch ?P (remote (start ())) (page_url ?P ''vercel'' (JFinite 1)) (request_headers ?P))
     = Inr (single_response ?body)"
    by (simp add: example_fields single_remote_def)
  have b: "res_ok (single_response ?body)"
    by (simp add: single_response_def res_ok_def)
  have c: "res_json (single_response ?body) = Inr ?body"
    by (simp add: single_response_def)
  have d: "no_items ?body" by (simp add: no_items_def)
  have e: "(0::nat) < 100" by simp
  have f: "next_pointer ?P (single_response ?body) = None"
    by (rule next_pointer_no_link) (simp add: single_response_def)
  from page_without_items [OF a b c d e, of "[]" Json] f a b c d e show ?thesis
    by (simp add: example_fields)
qed

end
